theory Spec2Isabelle
  imports Complex_Main
begin

section \<open>Strings\<close>

text \<open>
  Python strings are modelled as \<^typ>\<open>string\<close>, one \<^typ>\<open>char\<close> for each character
  with a code point below 256; a string with any other character is outside the model.
  The source tags, prior names and run types of the repository are ASCII identifiers.
\<close>

text \<open>
  \<^verbatim>\<open>s.split(c)\<close> for a one-character separator: the segments between the
  occurrences of \<open>c\<close>. The result is never empty: \<^verbatim>\<open>"".split("_") == [""]\<close>.
\<close>

fun split_on :: "char \<Rightarrow> string \<Rightarrow> string list" where
  "split_on c [] = [[]]"
| "split_on c (x # xs) =
     (if x = c then [] # split_on c xs
      else (let r = split_on c xs in (x # hd r) # tl r))"

text \<open>\<^verbatim>\<open>sep.join(ws)\<close>.\<close>

fun join_with :: "string \<Rightarrow> string list \<Rightarrow> string" where
  "join_with sep [] = []"
| "join_with sep [w] = w"
| "join_with sep (w # v # ws) = w @ sep @ join_with sep (v # ws)"

section \<open>Routing rule: \<^verbatim>\<open>Overwrite.determine_group\<close>\<close>

definition determine_group :: "string \<Rightarrow> string" where
  "determine_group source =
     (if source = ''wbm'' \<or> source = ''grades'' then ''model''
      else if source = ''grdc'' then ''model/grdc''
      else if source = ''gbreach'' then ''gbpriors/reach''
      else if source = ''gbnode'' then ''gbpriors/node''
      else ''model/usgs'')"

section \<open>Group names\<close>

text \<open>
  The builder names a group \<^verbatim>\<open>f"{source}_{prior}"\<close> (\<^verbatim>\<open>PriorStore.create_netcdf\<close>);
  the merge engine parses the name back with
  \<^verbatim>\<open>key.split('_')[0]\<close> and \<^verbatim>\<open>'_'.join(key.split('_')[1:])\<close>.
\<close>

definition group_name :: "string \<Rightarrow> string \<Rightarrow> string" where
  "group_name source prior = source @ ''_'' @ prior"

definition parse_key :: "string \<Rightarrow> string \<times> string" where
  "parse_key key = (hd (split_on CHR ''_'' key), join_with ''_'' (tl (split_on CHR ''_'' key)))"

section \<open>Errors\<close>

text \<open>
  Every exception the Python code or the libraries it calls can raise is a value of
  \<open>py_error\<close>; a computation that can raise returns \<open>py_error + 'a\<close>, with \<open>Inl\<close> for
  the exception.
\<close>

datatype py_error =
    NameError string
  | AttributeError
  | KeyError string
  | IndexError
  | ValueError
  | RuntimeError
  | FileNotFoundError

text \<open>Running a list of computations in order, stopping at the first exception.\<close>

fun sequence_err :: "(py_error + 'a) list \<Rightarrow> py_error + 'a list" where
  "sequence_err [] = Inr []"
| "sequence_err (m # ms) =
     (case m of
        Inl e \<Rightarrow> Inl e
      | Inr x \<Rightarrow> (case sequence_err ms of Inl e \<Rightarrow> Inl e | Inr xs \<Rightarrow> Inr (x # xs)))"

section \<open>Arrays\<close>

text \<open>
  The arrays of the exchange file and of the SoS have at most two axes. Floating-point
  values are modelled as rationals: rounding on the way to and from the file is not part
  of the model, the tolerance of the comparison is. Masked entries and fill values are
  not modelled.
\<close>

datatype ndarray = A0 rat | A1 "rat list" | A2 "rat list list"

text \<open>
  An index into an axis of length \<open>n\<close>: a negative index counts from the end, an index
  outside the axis raises \<^verbatim>\<open>IndexError\<close>. The axes have a fixed length: the growth of an
  unlimited dimension on a write beyond its end is not modelled.
\<close>

definition norm_index :: "nat \<Rightarrow> int \<Rightarrow> py_error + nat" where
  "norm_index n i =
     (let j = (if i < 0 then i + int n else i)
      in if 0 \<le> j \<and> j < int n then Inr (nat j) else Inl IndexError)"

definition norm_indexes :: "nat \<Rightarrow> int list \<Rightarrow> py_error + nat list" where
  "norm_indexes n idx = sequence_err (map (norm_index n) idx)"

text \<open>
  Broadcasting a value to a wanted shape, by numpy's rule: an axis of length one is
  repeated, a missing leading axis is added, any other difference raises
  \<^verbatim>\<open>ValueError\<close>.
\<close>

definition bcast_list :: "nat \<Rightarrow> 'a list \<Rightarrow> py_error + 'a list" where
  "bcast_list n xs =
     (if length xs = n then Inr xs
      else if length xs = 1 then Inr (replicate n (hd xs))
      else Inl ValueError)"

fun broadcast_to1 :: "nat \<Rightarrow> ndarray \<Rightarrow> py_error + rat list" where
  "broadcast_to1 n (A0 x) = Inr (replicate n x)"
| "broadcast_to1 n (A1 xs) = bcast_list n xs"
| "broadcast_to1 n (A2 xss) = Inl ValueError"

fun broadcast_to2 :: "nat \<Rightarrow> nat \<Rightarrow> ndarray \<Rightarrow> py_error + rat list list" where
  "broadcast_to2 n k (A0 x) = Inr (replicate n (replicate k x))"
| "broadcast_to2 n k (A1 xs) =
     (case bcast_list k xs of Inl e \<Rightarrow> Inl e | Inr row \<Rightarrow> Inr (replicate n row))"
| "broadcast_to2 n k (A2 xss) =
     (case sequence_err (map (bcast_list k) xss) of
        Inl e \<Rightarrow> Inl e
      | Inr rows \<Rightarrow> bcast_list n rows)"

text \<open>Pairing two axes by the same rule, for an elementwise operation.\<close>

definition zip_bcast :: "'a list \<Rightarrow> 'b list \<Rightarrow> py_error + ('a \<times> 'b) list" where
  "zip_bcast xs ys =
     (if length xs = length ys then Inr (zip xs ys)
      else if length xs = 1 then Inr (map (\<lambda>y. (hd xs, y)) ys)
      else if length ys = 1 then Inr (map (\<lambda>x. (x, hd ys)) xs)
      else Inl ValueError)"

subsection \<open>\<^verbatim>\<open>numpy.allclose\<close>\<close>

text \<open>
  \<^verbatim>\<open>numpy.isclose(a, b)\<close> with the default tolerances:
  \<^verbatim>\<open>|a - b| <= atol + rtol * |b|\<close>, \<^verbatim>\<open>rtol = 1e-05\<close>, \<^verbatim>\<open>atol = 1e-08\<close>.
\<close>

definition rtol :: rat where "rtol = 1 / 100000"
definition atol :: rat where "atol = 1 / 100000000"

definition isclose :: "rat \<Rightarrow> rat \<Rightarrow> bool" where
  "isclose a b = (\<bar>a - b\<bar> \<le> atol + rtol * \<bar>b\<bar>)"

definition allclose1 :: "rat list \<Rightarrow> rat list \<Rightarrow> py_error + bool" where
  "allclose1 xs ys =
     (case zip_bcast xs ys of
        Inl e \<Rightarrow> Inl e
      | Inr ps \<Rightarrow> Inr (list_all (\<lambda>(x, y). isclose x y) ps))"

definition allclose_rows :: "(rat list \<times> rat list) list \<Rightarrow> py_error + bool" where
  "allclose_rows ps =
     (case sequence_err (map (\<lambda>(r, s). allclose1 r s) ps) of
        Inl e \<Rightarrow> Inl e
      | Inr bs \<Rightarrow> Inr (list_all (\<lambda>b. b) bs))"

fun allclose :: "ndarray \<Rightarrow> ndarray \<Rightarrow> py_error + bool" where
  "allclose (A0 x) (A0 y) = Inr (isclose x y)"
| "allclose (A0 x) (A1 ys) = allclose1 [x] ys"
| "allclose (A1 xs) (A0 y) = allclose1 xs [y]"
| "allclose (A1 xs) (A1 ys) = allclose1 xs ys"
| "allclose (A0 x) (A2 yss) = allclose_rows (map (\<lambda>s. ([x], s)) yss)"
| "allclose (A2 xss) (A0 y) = allclose_rows (map (\<lambda>r. (r, [y])) xss)"
| "allclose (A1 xs) (A2 yss) = allclose_rows (map (\<lambda>s. (xs, s)) yss)"
| "allclose (A2 xss) (A1 ys) = allclose_rows (map (\<lambda>r. (r, ys)) xss)"
| "allclose (A2 xss) (A2 yss) =
     (case zip_bcast xss yss of Inl e \<Rightarrow> Inl e | Inr ps \<Rightarrow> allclose_rows ps)"

subsection \<open>Reading and writing a variable of the container\<close>

text \<open>
  A variable of the container indexed by integer sequences selects along each axis
  independently (the outer product of the sequences). An assignment broadcasts the value
  to the selected shape and stores it cell by cell, in order.
\<close>

fun store_rows :: "'a list \<Rightarrow> (nat \<times> 'a) list \<Rightarrow> 'a list" where
  "store_rows dest [] = dest"
| "store_rows dest ((i, v) # ivs) = store_rows (dest[i := v]) ivs"

definition ncols :: "rat list list \<Rightarrow> nat" where
  "ncols rows = (case rows of [] \<Rightarrow> 0 | r # _ \<Rightarrow> length r)"

text \<open>\<^verbatim>\<open>var[idx] = value\<close>.\<close>

fun nc_setitem :: "ndarray \<Rightarrow> int list \<Rightarrow> ndarray \<Rightarrow> py_error + ndarray" where
  "nc_setitem (A0 d) idx v = Inl IndexError"
| "nc_setitem (A1 d) idx v =
     (case norm_indexes (length d) idx of
        Inl e \<Rightarrow> Inl e
      | Inr js \<Rightarrow>
          (case broadcast_to1 (length js) v of
             Inl e \<Rightarrow> Inl e
           | Inr xs \<Rightarrow> Inr (A1 (store_rows d (zip js xs)))))"
| "nc_setitem (A2 d) idx v =
     (case norm_indexes (length d) idx of
        Inl e \<Rightarrow> Inl e
      | Inr js \<Rightarrow>
          (case broadcast_to2 (length js) (ncols d) v of
             Inl e \<Rightarrow> Inl e
           | Inr rows \<Rightarrow> Inr (A2 (store_rows d (zip js rows)))))"

text \<open>\<^verbatim>\<open>var[idx]\<close>.\<close>

fun nc_getitem :: "ndarray \<Rightarrow> int list \<Rightarrow> py_error + ndarray" where
  "nc_getitem (A0 d) idx = Inl IndexError"
| "nc_getitem (A1 d) idx =
     (case norm_indexes (length d) idx of
        Inl e \<Rightarrow> Inl e
      | Inr js \<Rightarrow> Inr (A1 (map (\<lambda>j. d ! j) js)))"
| "nc_getitem (A2 d) idx =
     (case norm_indexes (length d) idx of
        Inl e \<Rightarrow> Inl e
      | Inr js \<Rightarrow> Inr (A2 (map (\<lambda>j. d ! j) js)))"

text \<open>
  \<^verbatim>\<open>var[rows, cols] = value\<close>: the value is broadcast to the block
  \<open>length rows \<times> length cols\<close> and element \<open>(i, j)\<close> of the block goes to cell
  \<open>(rows[i], cols[j])\<close>.
\<close>

definition store_cols :: "rat list \<Rightarrow> nat list \<Rightarrow> rat list \<Rightarrow> rat list" where
  "store_cols row cols xs = store_rows row (zip cols xs)"

fun nc_setitem2 :: "ndarray \<Rightarrow> int list \<Rightarrow> int list \<Rightarrow> ndarray \<Rightarrow> py_error + ndarray" where
  "nc_setitem2 (A2 d) rows cols v =
     (case norm_indexes (length d) rows of
        Inl e \<Rightarrow> Inl e
      | Inr rs \<Rightarrow>
          (case norm_indexes (ncols d) cols of
             Inl e \<Rightarrow> Inl e
           | Inr cs \<Rightarrow>
               (case broadcast_to2 (length rs) (length cs) v of
                  Inl e \<Rightarrow> Inl e
                | Inr block \<Rightarrow>
                    Inr (A2 (foldl (\<lambda>acc (r, xs). acc[r := store_cols (acc ! r) cs xs])
                               d (zip rs block))))))"
| "nc_setitem2 d rows cols v = Inl IndexError"

text \<open>
  \<^verbatim>\<open>arr[rows, cols]\<close> on a numpy array (what \<^verbatim>\<open>var[:]\<close> returns): the two index
  arrays are broadcast against each other and paired, and the result holds
  \<open>arr[rows[k], cols[k]]\<close> for each pair; index arrays of different lengths, neither of
  length one, raise \<^verbatim>\<open>IndexError\<close>.
\<close>

fun np_getitem2 :: "ndarray \<Rightarrow> int list \<Rightarrow> int list \<Rightarrow> py_error + ndarray" where
  "np_getitem2 (A2 d) rows cols =
     (case norm_indexes (length d) rows of
        Inl e \<Rightarrow> Inl e
      | Inr rs \<Rightarrow>
          (case norm_indexes (ncols d) cols of
             Inl e \<Rightarrow> Inl e
           | Inr cs \<Rightarrow>
               (case zip_bcast rs cs of
                  Inl e \<Rightarrow> Inl IndexError
                | Inr ps \<Rightarrow> Inr (A1 (map (\<lambda>(r, c). d ! r ! c) ps)))))"
| "np_getitem2 d rows cols = Inl IndexError"

text \<open>\<^verbatim>\<open>arr[0]\<close> on a numpy array.\<close>

fun first_row :: "ndarray \<Rightarrow> py_error + ndarray" where
  "first_row (A0 x) = Inl IndexError"
| "first_row (A1 xs) = (case xs of [] \<Rightarrow> Inl IndexError | x # _ \<Rightarrow> Inr (A0 x))"
| "first_row (A2 xss) = (case xss of [] \<Rightarrow> Inl IndexError | r # _ \<Rightarrow> Inr (A1 r))"

text \<open>\<^verbatim>\<open>arr.astype(int)\<close> truncates towards zero.\<close>

definition astype_int :: "rat \<Rightarrow> int" where
  "astype_int q = (if 0 \<le> q then \<lfloor>q\<rfloor> else \<lceil>q\<rceil>)"

section \<open>Identifier-to-offset permutation\<close>

text \<open>
  \<^verbatim>\<open>numpy.argsort(a)\<close>: the indices of \<open>a\<close> in the order that sorts it. The model is the
  stable sort; the default of numpy is not stable, which makes no difference when the
  values are pairwise distinct.
\<close>

definition argsort :: "int list \<Rightarrow> nat list" where
  "argsort a = sort_key (\<lambda>i. a ! i) [0..<length a]"

text \<open>
  \<^verbatim>\<open>numpy.searchsorted(a, v, sorter=sorter)\<close> (side left): for each key of \<open>v\<close>, by
  bisection, the leftmost position of \<open>a\<close> taken in the order \<open>sorter\<close> before which the
  key can be inserted.
\<close>

function bisect_left :: "int list \<Rightarrow> nat list \<Rightarrow> int \<Rightarrow> nat \<Rightarrow> nat \<Rightarrow> nat" where
  "bisect_left a sorter key_val min_idx max_idx =
     (if min_idx < max_idx then
        (let mid_idx = min_idx + (max_idx - min_idx) div 2 in
         if a ! (sorter ! mid_idx) < key_val
         then bisect_left a sorter key_val (mid_idx + 1) max_idx
         else bisect_left a sorter key_val min_idx mid_idx)
      else min_idx)"
  by pat_completeness auto
termination
  by (relation "measure (\<lambda>(a, sorter, key_val, min_idx, max_idx). max_idx - min_idx)") auto

declare bisect_left.simps [simp del]

definition searchsorted :: "int list \<Rightarrow> int list \<Rightarrow> nat list \<Rightarrow> nat list" where
  "searchsorted a v sorter = map (\<lambda>key_val. bisect_left a sorter key_val 0 (length a)) v"

text \<open>\<^verbatim>\<open>xs[idx]\<close> on a one-axis numpy array, for an index array \<open>idx\<close>.\<close>

definition np_take :: "'a list \<Rightarrow> nat list \<Rightarrow> py_error + 'a list" where
  "np_take xs idx =
     (if \<forall>i \<in> set idx. i < length xs then Inr (map (\<lambda>i. xs ! i) idx)
      else Inl IndexError)"

text \<open>
  The two lines of \<^verbatim>\<open>Overwrite.overwrite\<close> that turn identifiers into offsets,
  \<^verbatim>\<open>sorter = np.argsort(sos_ids)\<close> and
  \<^verbatim>\<open>sorter[np.searchsorted(sos_ids, prior_ids, sorter=sorter)]\<close>; the same two lines
  align the time axis.
\<close>

definition resolve_offsets :: "int list \<Rightarrow> int list \<Rightarrow> py_error + nat list" where
  "resolve_offsets sos_ids prior_ids =
     (let sorter = argsort sos_ids
      in np_take sorter (searchsorted sos_ids prior_ids sorter))"

section \<open>The exchange file and the SoS\<close>

text \<open>
  A group of the exchange file, as \<^verbatim>\<open>PriorStore.create_variables\<close> declares it: the
  attribute \<^verbatim>\<open>run_type\<close>, the variables \<^verbatim>\<open>indexes\<close> and \<^verbatim>\<open>prior_values\<close>, one of
  \<^verbatim>\<open>reach_id\<close> and \<^verbatim>\<open>node_id\<close>, and \<^verbatim>\<open>value_t\<close> (two axes) for a daily prior. A
  variable that may be absent is an option.
\<close>

record prior_group =
  run_type :: string
  indexes :: "int list"
  prior_values :: ndarray
  reach_id :: "int list option"
  node_id :: "int list option"
  value_t :: "rat list list option"

text \<open>
  The SoS file: its variables by their path from the root (\<^verbatim>\<open>sos_ds["model"]["usgs"]["usgs_reach_id"]\<close>
  is the path \<open>model/usgs/usgs_reach_id\<close>), by kind: identifier arrays, time-label arrays
  (two axes) and prior arrays.
\<close>

record sos =
  id_vars :: "string \<rightharpoonup> int list"
  time_vars :: "string \<rightharpoonup> rat list list"
  data_vars :: "string \<rightharpoonup> ndarray"

text \<open>Looking up a group or variable that does not exist raises \<^verbatim>\<open>IndexError\<close>.\<close>

definition lookup :: "('k \<rightharpoonup> 'v) \<Rightarrow> 'k \<Rightarrow> py_error + 'v" where
  "lookup m k = (case m k of None \<Rightarrow> Inl IndexError | Some v \<Rightarrow> Inr v)"

definition get_var :: "'v option \<Rightarrow> py_error + 'v" where
  "get_var v = (case v of None \<Rightarrow> Inl IndexError | Some x \<Rightarrow> Inr x)"

section \<open>Identifier resolution: \<^verbatim>\<open>Overwrite.retrieve_ids\<close>\<close>

definition retrieve_ids :: "string \<Rightarrow> prior_group \<Rightarrow> sos \<Rightarrow> py_error + (int list \<times> int list)" where
  "retrieve_ids source priors_ds sos_ds =
     (if source = ''usgs'' then
        (case get_var (reach_id priors_ds) of
           Inl e \<Rightarrow> Inl e
         | Inr prior_ids \<Rightarrow>
             (case lookup (id_vars sos_ds) ''model/usgs/usgs_reach_id'' of
                Inl e \<Rightarrow> Inl e
              | Inr sos_ids \<Rightarrow> Inr (prior_ids, sos_ids)))
      else if source = ''grdc'' then
        (case get_var (reach_id priors_ds) of
           Inl e \<Rightarrow> Inl e
         | Inr prior_ids \<Rightarrow>
             (case lookup (id_vars sos_ds) ''model/grdc/grdc_reach_id'' of
                Inl e \<Rightarrow> Inl e
              | Inr sos_ids \<Rightarrow> Inr (prior_ids, sos_ids)))
      else
        (case get_var (reach_id priors_ds) of
           Inl e \<Rightarrow> Inl e
         | Inr prior_ids \<Rightarrow>
             (case lookup (id_vars sos_ds) ''reaches/reach_id'' of
                Inl e \<Rightarrow> Inl e
              | Inr sos_ids \<Rightarrow> Inr (prior_ids, sos_ids))))"

text \<open>
  The choice of the identifier arrays in \<^verbatim>\<open>Overwrite.overwrite\<close>
  (\<^verbatim>\<open>if "reach_id" in priors_ds[key].variables.keys(): ... else: ...\<close>).
\<close>

definition test_ids :: "string \<Rightarrow> prior_group \<Rightarrow> sos \<Rightarrow> py_error + (int list \<times> int list)" where
  "test_ids source priors_ds sos_ds =
     (if reach_id priors_ds \<noteq> None then retrieve_ids source priors_ds sos_ds
      else
        (case get_var (node_id priors_ds) of
           Inl e \<Rightarrow> Inl e
         | Inr prior_ids \<Rightarrow>
             (case lookup (id_vars sos_ds) ''nodes/node_id'' of
                Inl e \<Rightarrow> Inl e
              | Inr sos_ids \<Rightarrow> Inr (prior_ids, sos_ids))))"

section \<open>The merge engine: \<^verbatim>\<open>Overwrite.overwrite\<close>\<close>

text \<open>\<^verbatim>\<open>arr[:].astype(int)[0]\<close> on a two-axis array of time labels.\<close>

definition first_row_int :: "rat list list \<Rightarrow> py_error + int list" where
  "first_row_int rows = (case rows of [] \<Rightarrow> Inl IndexError | r # _ \<Rightarrow> Inr (map astype_int r))"

text \<open>The path of a variable \<open>name\<close> of the group \<open>grp\<close> of the SoS.\<close>

definition var_path :: "string \<Rightarrow> string \<Rightarrow> string" where
  "var_path grp name = grp @ ''/'' @ name"

text \<open>
  The time-axis alignment: \<^verbatim>\<open>prior_t\<close>, \<^verbatim>\<open>sos_t\<close>, \<^verbatim>\<open>sorter\<close> and \<^verbatim>\<open>index_t\<close> of
  the branch \<^verbatim>\<open>if "value_t" in priors_ds[key].variables.keys()\<close>.
\<close>

definition time_offsets :: "string \<Rightarrow> string \<Rightarrow> rat list list \<Rightarrow> sos \<Rightarrow> py_error + nat list" where
  "time_offsets grp prior vt sos_ds =
     (case first_row_int vt of
        Inl e \<Rightarrow> Inl e
      | Inr prior_t \<Rightarrow>
          (case lookup (time_vars sos_ds) (var_path grp (prior @ ''t'')) of
             Inl e \<Rightarrow> Inl e
           | Inr t_rows \<Rightarrow>
               (case first_row_int t_rows of
                  Inl e \<Rightarrow> Inl e
                | Inr sos_t \<Rightarrow> resolve_offsets sos_t prior_t)))"

text \<open>
  The write and the read-back of a record with a time vector:
  \<^verbatim>\<open>sos_ds[group][prior][prior_indexes,index_t] = data[0]\<close> and
  \<^verbatim>\<open>np.allclose(data[0], sos_ds[group][prior][:][test_indexes,index_t])\<close>.
  The result is the SoS as the statements leave it and the verdict or the exception.
\<close>

definition overwrite_timed ::
  "string \<Rightarrow> string \<Rightarrow> int list \<Rightarrow> ndarray \<Rightarrow> nat list \<Rightarrow> nat list \<Rightarrow> sos \<Rightarrow> sos \<times> (py_error + bool)" where
  "overwrite_timed grp prior prior_indexes data test_indexes index_t sos_ds =
     (case first_row data of
        Inl e \<Rightarrow> (sos_ds, Inl e)
      | Inr data0 \<Rightarrow>
          (case lookup (data_vars sos_ds) (var_path grp prior) of
             Inl e \<Rightarrow> (sos_ds, Inl e)
           | Inr var \<Rightarrow>
               (case nc_setitem2 var prior_indexes (map int index_t) data0 of
                  Inl e \<Rightarrow> (sos_ds, Inl e)
                | Inr var' \<Rightarrow>
                    (sos_ds\<lparr>data_vars := (data_vars sos_ds)(var_path grp prior \<mapsto> var')\<rparr>,
                     case np_getitem2 var' (map int test_indexes) (map int index_t) of
                       Inl e \<Rightarrow> Inl e
                     | Inr back \<Rightarrow> allclose data0 back))))"

text \<open>
  The write and the read-back of a record without a time vector:
  \<^verbatim>\<open>sos_ds[group][prior][prior_indexes] = data\<close> and
  \<^verbatim>\<open>np.allclose(data, sos_ds[group][prior][test_indexes])\<close>.
\<close>

definition overwrite_plain ::
  "string \<Rightarrow> string \<Rightarrow> int list \<Rightarrow> ndarray \<Rightarrow> nat list \<Rightarrow> sos \<Rightarrow> sos \<times> (py_error + bool)" where
  "overwrite_plain grp prior prior_indexes data test_indexes sos_ds =
     (case lookup (data_vars sos_ds) (var_path grp prior) of
        Inl e \<Rightarrow> (sos_ds, Inl e)
      | Inr var \<Rightarrow>
          (case nc_setitem var prior_indexes data of
             Inl e \<Rightarrow> (sos_ds, Inl e)
           | Inr var' \<Rightarrow>
               (sos_ds\<lparr>data_vars := (data_vars sos_ds)(var_path grp prior \<mapsto> var')\<rparr>,
                case nc_getitem var' (map int test_indexes) of
                  Inl e \<Rightarrow> Inl e
                | Inr back \<Rightarrow> allclose data back)))"

text \<open>
  The body of the loop of \<^verbatim>\<open>Overwrite.overwrite\<close> between the opening of the SoS and
  the status line, for the group of source \<open>source\<close> and prior \<open>prior\<close>.
\<close>

definition overwrite_group :: "string \<Rightarrow> string \<Rightarrow> prior_group \<Rightarrow> sos \<Rightarrow> sos \<times> (py_error + bool)" where
  "overwrite_group source prior priors_ds sos_ds =
     (let prior_indexes = indexes priors_ds;
          data = prior_values priors_ds;
          grp = determine_group source
      in case test_ids source priors_ds sos_ds of
           Inl e \<Rightarrow> (sos_ds, Inl e)
         | Inr (prior_ids, sos_ids) \<Rightarrow>
             (case resolve_offsets sos_ids prior_ids of
                Inl e \<Rightarrow> (sos_ds, Inl e)
              | Inr test_indexes \<Rightarrow>
                  (case value_t priors_ds of
                     Some vt \<Rightarrow>
                       (case time_offsets grp prior vt sos_ds of
                          Inl e \<Rightarrow> (sos_ds, Inl e)
                        | Inr index_t \<Rightarrow>
                            overwrite_timed grp prior prior_indexes data test_indexes index_t sos_ds)
                   | None \<Rightarrow> overwrite_plain grp prior prior_indexes data test_indexes sos_ds)))"

subsection \<open>The status line\<close>

text \<open>
  \<^verbatim>\<open>str.upper\<close> works character by character. An ASCII character goes to one
  character: a lower-case letter to its upper-case letter, any other to itself. A
  character that is not ASCII goes to what the Unicode tables say, which can be several
  characters (\<^verbatim>\<open>'\xdf'.upper() == 'SS'\<close>); these tables are not part of the
  repository, so the upper-casing \<open>uc\<close> of the characters that are not ASCII is a
  parameter of the model.
\<close>

definition upper_char :: "char \<Rightarrow> char" where
  "upper_char c =
     (let n = (of_char c :: nat) in if 97 \<le> n \<and> n \<le> 122 then char_of (n - 32) else c)"

definition upper :: "(char \<Rightarrow> string) \<Rightarrow> string \<Rightarrow> string" where
  "upper uc s = concat (map (\<lambda>c. if (of_char c :: nat) < 128 then [upper_char c] else uc c) s)"

definition status_line :: "(char \<Rightarrow> string) \<Rightarrow> bool \<Rightarrow> string \<Rightarrow> string \<Rightarrow> string \<Rightarrow> string" where
  "status_line uc success source prior run_type' =
     (let source' = (if source = ''gbreach'' \<or> source = ''gbnode'' then ''gbpriors'' else source)
      in if success
         then upper uc source' @ '': '' @ [CHR 0x27] @ prior @ [CHR 0x27]
              @ '' has been overwritten in the SoS ('' @ run_type' @ '').''
         else ''FAILURE: '' @ upper uc source' @ '': '' @ [CHR 0x27] @ prior @ [CHR 0x27]
              @ '' has NOT been overwritten in the SoS ('' @ run_type' @ '').'')"

subsection \<open>The loop over the groups\<close>

text \<open>
  The SoS files on disk, by \<^verbatim>\<open>sos_dir / run_type / sos_file\<close>, and what the run does
  that can be observed from outside: opening a SoS file, printing a line, closing the file.
\<close>

type_synonym sos_path = "string \<times> string \<times> string"

datatype event = Opened sos_path | Printed string | Closed sos_path

text \<open>
  The loop \<^verbatim>\<open>for key in priors_ds.groups.keys()\<close>. The result is the files as the run
  leaves them, the events in order, and the exception that ended the run, if one did.
  Opening a file that does not exist raises \<^verbatim>\<open>FileNotFoundError\<close>; an exception in the
  body leaves the file open.
\<close>

fun overwrite_loop ::
  "(char \<Rightarrow> string) \<Rightarrow> string \<Rightarrow> string \<Rightarrow> (string \<times> prior_group) list \<Rightarrow> (sos_path \<rightharpoonup> sos)
     \<Rightarrow> (sos_path \<rightharpoonup> sos) \<times> event list \<times> py_error option" where
  "overwrite_loop uc sos_dir sos_file' [] files = (files, [], None)"
| "overwrite_loop uc sos_dir sos_file' ((key, priors_ds) # rest) files =
     (let source = hd (split_on CHR ''_'' key);
          prior = join_with ''_'' (tl (split_on CHR ''_'' key));
          path = (sos_dir, run_type priors_ds, sos_file')
      in case files path of
           None \<Rightarrow> (files, [], Some FileNotFoundError)
         | Some sos_ds \<Rightarrow>
             (case overwrite_group source prior priors_ds sos_ds of
                (sos_ds', Inl e) \<Rightarrow> (files(path \<mapsto> sos_ds'), [Opened path], Some e)
              | (sos_ds', Inr success) \<Rightarrow>
                  (case overwrite_loop uc sos_dir sos_file' rest (files(path \<mapsto> sos_ds')) of
                     (files', evs, err) \<Rightarrow>
                       (files',
                        [Opened path,
                         Printed (status_line uc success source prior (run_type priors_ds)),
                         Closed path] @ evs,
                        err))))"

text \<open>
  The exchange file: the attribute \<^verbatim>\<open>sos_file\<close> that \<^verbatim>\<open>Overwrite.locate_sos_file\<close>
  reads, and the groups in the order of the file.
\<close>

record priors_file =
  sos_file :: string
  groups :: "(string \<times> prior_group) list"

definition overwrite ::
  "(char \<Rightarrow> string) \<Rightarrow> priors_file \<Rightarrow> string \<Rightarrow> (sos_path \<rightharpoonup> sos)
     \<Rightarrow> (sos_path \<rightharpoonup> sos) \<times> event list \<times> py_error option" where
  "overwrite uc priors_ds sos_dir files =
     overwrite_loop uc sos_dir (sos_file priors_ds) (groups priors_ds) files"

text \<open>
  The values the variable \<^verbatim>\<open>success\<close> takes in a run, in order: one for each group whose
  body ends without an exception, computed on the files as the groups before it left them.
  The run stops at the first group whose file is missing or whose body raises.
\<close>

fun loop_verdicts ::
  "string \<Rightarrow> string \<Rightarrow> (string \<times> prior_group) list \<Rightarrow> (sos_path \<rightharpoonup> sos) \<Rightarrow> bool list" where
  "loop_verdicts sos_dir sos_file' [] files = []"
| "loop_verdicts sos_dir sos_file' ((key, priors_ds) # rest) files =
     (let source = hd (split_on CHR ''_'' key);
          prior = join_with ''_'' (tl (split_on CHR ''_'' key));
          path = (sos_dir, run_type priors_ds, sos_file')
      in case files path of
           None \<Rightarrow> []
         | Some sos_ds \<Rightarrow>
             (case overwrite_group source prior priors_ds sos_ds of
                (sos_ds', Inl e) \<Rightarrow> []
              | (sos_ds', Inr success) \<Rightarrow>
                  success # loop_verdicts sos_dir sos_file' rest (files(path \<mapsto> sos_ds'))))"

text \<open>
  Two readings of a run, for stating what it shows: the lines printed, in order, and the
  events of one group that reaches its status line with the verdict \<open>ok\<close>.
\<close>

definition printed :: "event list \<Rightarrow> string list" where
  "printed evs = concat (map (\<lambda>e. case e of Printed l \<Rightarrow> [l] | _ \<Rightarrow> []) evs)"

definition group_trace ::
  "(char \<Rightarrow> string) \<Rightarrow> string \<Rightarrow> string \<Rightarrow> (string \<times> prior_group) \<times> bool \<Rightarrow> event list" where
  "group_trace uc sos_dir sos_file' kgo =
     (case kgo of
        ((key, priors_ds), ok) \<Rightarrow>
          [Opened (sos_dir, run_type priors_ds, sos_file'),
           Printed (status_line uc ok (fst (parse_key key)) (snd (parse_key key)) (run_type priors_ds)),
           Closed (sos_dir, run_type priors_ds, sos_file')])"

section \<open>The exchange-file builder: \<^verbatim>\<open>PriorStore\<close>\<close>

definition NODE_LIST :: "string list" where
  "NODE_LIST = [''river_type'', ''logA0_hat'', ''logn_hat'', ''b_hat'', ''logWb_hat'',
     ''logDb_hat'', ''logr_hat'', ''logA0_sd'', ''logn_sd'', ''b_sd'', ''logWb_sd'',
     ''logDb_sd'', ''logr_sd'', ''sigma_man'', ''sigma_amhg'']"

definition MONTHS_LIST :: "string list" where
  "MONTHS_LIST = [''monthly_q'']"

definition DAYS_LIST :: "string list" where
  "DAYS_LIST = [''grdc_q'', ''usgs_q'']"

definition PROB_LIST :: "string list" where
  "PROB_LIST = [''flow_duration_q'']"

text \<open>
  The description of one prior in \<^verbatim>\<open>priors_dict\<close>: the keys \<^verbatim>\<open>run_type\<close>,
  \<^verbatim>\<open>indexes\<close>, \<^verbatim>\<open>values\<close> and \<^verbatim>\<open>data_type\<close> that every description has, and the
  keys \<^verbatim>\<open>reach_ids\<close>, \<^verbatim>\<open>node_ids\<close> and \<^verbatim>\<open>value_t\<close> that may be absent. Reading an
  absent key raises \<^verbatim>\<open>KeyError\<close>.
\<close>

record prior_data =
  j_run_type :: string
  j_reach_ids :: "int list option"
  j_node_ids :: "int list option"
  j_indexes :: "int list"
  j_values :: ndarray
  j_data_type :: string
  j_value_t :: "rat list list option"

definition get_key :: "string \<Rightarrow> 'v option \<Rightarrow> py_error + 'v" where
  "get_key k v = (case v of None \<Rightarrow> Inl (KeyError k) | Some x \<Rightarrow> Inr x)"

subsection \<open>\<^verbatim>\<open>PriorStore.create_dimensions\<close>\<close>

text \<open>
  A dimension is its name and its size, \<open>None\<close> for an unlimited one. The function
  returns the dimensions it creates, in order. \<^verbatim>\<open>if num_reaches:\<close> is false for
  \<^verbatim>\<open>None\<close> and for zero.
\<close>

type_synonym dimension = "string \<times> nat option"

definition create_dimensions :: "string \<Rightarrow> nat option \<Rightarrow> nat option \<Rightarrow> dimension list" where
  "create_dimensions source num_reaches num_nodes =
     (case num_reaches of
        None \<Rightarrow> []
      | Some n \<Rightarrow> if n \<noteq> 0 then [(''num_reaches'', Some n)] else [])
     @ (case num_nodes of
          None \<Rightarrow> []
        | Some n \<Rightarrow> if n \<noteq> 0 then [(''num_nodes'', Some n)] else [])
     @ (if source = ''wbm'' \<or> source = ''grades'' \<or> source = ''grdc'' \<or> source = ''usgs''
        then [(''num_months'', Some 12), (''probability'', Some 20)] else [])
     @ (if source = ''grdc'' then [(''num_days'', None)] else [])
     @ (if source = ''usgs'' then [(''num_days'', None), (''nchars'', Some 16)] else [])"

subsection \<open>\<^verbatim>\<open>PriorStore.create_variables\<close>\<close>

datatype nc_data = Ints "int list" | Reals ndarray | Labels "rat list list"

record nc_var =
  var_name :: string
  var_type :: string
  var_dims :: "string list"
  var_data :: nc_data

text \<open>
  \<^verbatim>\<open>v = ds.createVariable(name, type, dims); v[:] = payload\<close>: the container raises
  when a dimension of \<open>dims\<close> is not defined in the group; then the payload is read. The
  container's check of the payload against the sizes of the dimensions is not modelled.
\<close>

definition create_var ::
  "dimension list \<Rightarrow> string \<Rightarrow> string \<Rightarrow> string list \<Rightarrow> py_error + nc_data \<Rightarrow> py_error + nc_var" where
  "create_var ds name type dims payload =
     (if \<forall>d \<in> set dims. d \<in> set (map fst ds)
      then (case payload of
              Inl e \<Rightarrow> Inl e
            | Inr p \<Rightarrow> Inr \<lparr>var_name = name, var_type = type, var_dims = dims, var_data = p\<rparr>)
      else Inl ValueError)"

text \<open>
  The conditions of the \<^verbatim>\<open>if\<close>/\<^verbatim>\<open>elif\<close> chain of \<^verbatim>\<open>create_variables\<close>, in its
  order, with a name for the shape each branch writes.
\<close>

datatype shape = NodeScalar | ReachProbability | ReachMonthly | ReachDaily | ReachScalar

definition category :: "string \<Rightarrow> string \<Rightarrow> shape" where
  "category source prior =
     (if source = ''gbnode'' \<and> prior \<in> set NODE_LIST then NodeScalar
      else if prior \<in> set PROB_LIST then ReachProbability
      else if prior \<in> set MONTHS_LIST then ReachMonthly
      else if prior \<in> set DAYS_LIST then ReachDaily
      else ReachScalar)"


definition map_payload :: "('a \<Rightarrow> nc_data) \<Rightarrow> py_error + 'a \<Rightarrow> py_error + nc_data" where
  "map_payload f m = (case m of Inl e \<Rightarrow> Inl e | Inr x \<Rightarrow> Inr (f x))"

text \<open>The bodies of the branches: the variables each creates, in order.\<close>

definition create_variables :: "string \<Rightarrow> string \<Rightarrow> prior_data \<Rightarrow> dimension list \<Rightarrow> py_error + nc_var list" where
  "create_variables source prior data ds =
     (case category source prior of
        NodeScalar \<Rightarrow>
          sequence_err
            [create_var ds ''node_id'' ''i8'' [''num_nodes'']
               (map_payload Ints (get_key ''node_ids'' (j_node_ids data))),
             create_var ds ''indexes'' ''i4'' [''num_nodes''] (Inr (Ints (j_indexes data))),
             create_var ds ''prior_values'' (j_data_type data) [''num_nodes'']
               (Inr (Reals (j_values data)))]
      | ReachProbability \<Rightarrow>
          sequence_err
            [create_var ds ''reach_id'' ''i8'' [''num_reaches'']
               (map_payload Ints (get_key ''reach_ids'' (j_reach_ids data))),
             create_var ds ''indexes'' ''i4'' [''num_reaches''] (Inr (Ints (j_indexes data))),
             create_var ds ''prior_values'' (j_data_type data) [''num_reaches'', ''probability'']
               (Inr (Reals (j_values data)))]
      | ReachMonthly \<Rightarrow>
          sequence_err
            [create_var ds ''reach_id'' ''i8'' [''num_reaches'']
               (map_payload Ints (get_key ''reach_ids'' (j_reach_ids data))),
             create_var ds ''indexes'' ''i4'' [''num_reaches''] (Inr (Ints (j_indexes data))),
             create_var ds ''prior_values'' (j_data_type data) [''num_reaches'', ''num_months'']
               (Inr (Reals (j_values data)))]
      | ReachDaily \<Rightarrow>
          sequence_err
            [create_var ds ''reach_id'' ''i8'' [''num_reaches'']
               (map_payload Ints (get_key ''reach_ids'' (j_reach_ids data))),
             create_var ds ''indexes'' ''i4'' [''num_reaches''] (Inr (Ints (j_indexes data))),
             create_var ds ''prior_values'' (j_data_type data) [''num_reaches'', ''num_days'']
               (Inr (Reals (j_values data))),
             create_var ds ''value_t'' ''f8'' [''num_reaches'', ''num_days'']
               (map_payload Labels (get_key ''value_t'' (j_value_t data)))]
      | ReachScalar \<Rightarrow>
          sequence_err
            [create_var ds ''reach_id'' ''i8'' [''num_reaches'']
               (map_payload Ints (get_key ''reach_ids'' (j_reach_ids data))),
             create_var ds ''indexes'' ''i4'' [''num_reaches''] (Inr (Ints (j_indexes data))),
             create_var ds ''prior_values'' (j_data_type data) [''num_reaches'']
               (Inr (Reals (j_values data)))])"

subsection \<open>\<^verbatim>\<open>PriorStore.create_netcdf\<close>\<close>

record nc_group =
  grp_name :: string
  grp_run_type :: string
  grp_dims :: "dimension list"
  grp_vars :: "nc_var list"

record nc_file =
  nc_author :: string
  nc_contact :: string
  nc_sos_file :: string
  nc_production_date :: string
  nc_groups :: "nc_group list"

record prior_store =
  author :: string
  email :: string
  priors_dict :: "(string \<times> (string \<times> prior_data) list) list option"
  store_sos_file :: string
  output_dir :: string

text \<open>
  The body of the inner loop: the group \<^verbatim>\<open>f"{source}_{prior}"\<close>, its attribute, its
  dimensions and its variables.
\<close>

definition create_group :: "string \<Rightarrow> string \<Rightarrow> prior_data \<Rightarrow> py_error + nc_group" where
  "create_group source prior data =
     (case (case j_reach_ids data of
              Some r \<Rightarrow> Inr (create_dimensions source (Some (length r)) None)
            | None \<Rightarrow>
                (case get_key ''node_ids'' (j_node_ids data) of
                   Inl e \<Rightarrow> Inl e
                 | Inr n \<Rightarrow> Inr (create_dimensions source None (Some (length n))))) of
        Inl e \<Rightarrow> Inl e
      | Inr ds \<Rightarrow>
          (case create_variables source prior data ds of
             Inl e \<Rightarrow> Inl e
           | Inr vs \<Rightarrow>
               Inr \<lparr>grp_name = group_name source prior, grp_run_type = j_run_type data,
                    grp_dims = ds, grp_vars = vs\<rparr>))"

text \<open>
  The loops over the priors of a source and over the sources. The groups written so far
  are threaded through; an exception ends the loops and keeps them. A group name that is
  already in the file makes the container raise when the dimensions and variables are
  created a second time; a group that raises is left out.
\<close>

fun create_prior_groups ::
  "string \<Rightarrow> (string \<times> prior_data) list \<Rightarrow> nc_group list \<Rightarrow> nc_group list \<times> py_error option" where
  "create_prior_groups source [] gs = (gs, None)"
| "create_prior_groups source ((prior, data) # rest) gs =
     (if group_name source prior \<in> set (map grp_name gs) then (gs, Some RuntimeError)
      else (case create_group source prior data of
              Inl e \<Rightarrow> (gs, Some e)
            | Inr g \<Rightarrow> create_prior_groups source rest (gs @ [g])))"

fun create_groups ::
  "(string \<times> (string \<times> prior_data) list) list \<Rightarrow> nc_group list \<Rightarrow> nc_group list \<times> py_error option" where
  "create_groups [] gs = (gs, None)"
| "create_groups ((source, priors) # rest) gs =
     (if priors \<noteq> [] then
        (case create_prior_groups source priors gs of
           (gs', Some e) \<Rightarrow> (gs', Some e)
         | (gs', None) \<Rightarrow> create_groups rest gs')
      else create_groups rest gs)"

text \<open>\<^verbatim>\<open>str.lower\<close> and \<^verbatim>\<open>str.replace(' ', '_')\<close> on ASCII strings.\<close>

definition lower_char :: "char \<Rightarrow> char" where
  "lower_char c =
     (let n = (of_char c :: nat) in if 65 \<le> n \<and> n \<le> 90 then char_of (n + 32) else c)"

definition lower :: "string \<Rightarrow> string" where
  "lower s = map lower_char s"

definition replace_space :: "string \<Rightarrow> string" where
  "replace_space s = map (\<lambda>c. if c = CHR '' '' then CHR ''_'' else c) s"

text \<open>
  The first statement of \<^verbatim>\<open>create_netcdf\<close> reads the name \<^verbatim>\<open>author\<close>, which is not a
  parameter, a local or an attribute: Python looks it up among the globals of the module
  and raises \<^verbatim>\<open>NameError\<close> when it is not bound. The globals are a parameter of the
  model; a global that is bound to something other than a string has no \<^verbatim>\<open>replace\<close>.
\<close>

datatype py_value = PyStr string | PyOther

text \<open>
  The files of the output directory are a map from (directory, file name) to contents.
  The result is the files as the call leaves them and the exception that ended it, if one
  did. \<open>now\<close> is the production date, \<^verbatim>\<open>datetime.now().strftime(...)\<close>.
\<close>

definition create_netcdf ::
  "(string \<rightharpoonup> py_value) \<Rightarrow> string \<Rightarrow> prior_store \<Rightarrow> (string \<times> string \<rightharpoonup> nc_file)
     \<Rightarrow> (string \<times> string \<rightharpoonup> nc_file) \<times> py_error option" where
  "create_netcdf globals now self files =
     (case globals ''author'' of
        None \<Rightarrow> (files, Some (NameError ''author''))
      | Some PyOther \<Rightarrow> (files, Some AttributeError)
      | Some (PyStr a) \<Rightarrow>
          (let file_name = (output_dir self,
                 lower (replace_space a) @ ''_'' @ hd (split_on CHR ''_'' (store_sos_file self)) @ ''.nc'');
               ds = \<lparr>nc_author = author self, nc_contact = email self,
                     nc_sos_file = store_sos_file self, nc_production_date = now, nc_groups = []\<rparr>
           in case priors_dict self of
                None \<Rightarrow> (files(file_name \<mapsto> ds), Some AttributeError)
              | Some d \<Rightarrow>
                  (case create_groups d [] of
                     (gs, err) \<Rightarrow> (files(file_name \<mapsto> ds\<lparr>nc_groups := gs\<rparr>), err))))"

section \<open>The two-axis write and read-back, in the words of the specification\<close>

text \<open>
  The specification's statement of the two-axis write (section 4.4 and property P3), for
  comparison with what \<open>overwrite_timed\<close> does: payload element \<open>(i, j)\<close> is in the
  destination cell \<open>(rows[i], cols[j])\<close>, for every row \<open>i\<close> and every column \<open>j\<close> of
  the payload.
\<close>

definition spec_cells_written :: "rat list list \<Rightarrow> nat list \<Rightarrow> nat list \<Rightarrow> rat list list \<Rightarrow> bool" where
  "spec_cells_written payload rows cols dest =
     list_all (\<lambda>i. list_all (\<lambda>j. dest ! (rows ! i) ! (cols ! j) = payload ! i ! j)
                  [0..<length cols])
       [0..<length rows]"

text \<open>
  The specification's statement of the verification (section 4.5, steps 4 and 5): the
  cells read back at the offsets recomputed from the identifiers are close to the
  original payload, element by element.
\<close>

definition spec_readback_ok :: "rat list list \<Rightarrow> nat list \<Rightarrow> nat list \<Rightarrow> rat list list \<Rightarrow> bool" where
  "spec_readback_ok payload rows cols dest =
     list_all (\<lambda>i. list_all (\<lambda>j. isclose (payload ! i ! j) (dest ! (rows ! i) ! (cols ! j)))
                  [0..<length cols])
       [0..<length rows]"

section \<open>Example inputs\<close>

text \<open>
  A SoS with three reaches, identifiers \<open>[30, 10, 20]\<close>, the scalar priors \<open>a\<close> and
  \<open>b\<close> of the group \<open>model\<close>, and the daily prior \<open>usgs_q\<close> of the group
  \<open>model/usgs\<close> with two gauged reaches and three days, stored in the order
  \<open>[2001, 2003, 2002]\<close>.
\<close>

definition ex_sos :: sos where
  "ex_sos =
     \<lparr>id_vars = [''reaches/reach_id'' \<mapsto> [30, 10, 20], ''model/usgs/usgs_reach_id'' \<mapsto> [7, 8]],
      time_vars = [''model/usgs/usgs_qt'' \<mapsto> [[2001, 2003, 2002], [2001, 2003, 2002]]],
      data_vars = [''model/a'' \<mapsto> A1 [0, 0, 0], ''model/b'' \<mapsto> A1 [0, 0, 0],
                   ''model/usgs/usgs_q'' \<mapsto> A2 [[0, 0, 0], [0, 0, 0]]]\<rparr>"

text \<open>
  A scalar record for the reaches \<open>20\<close> and \<open>30\<close> with the payload \<open>[5.5, 7.7]\<close>:
  once with the offsets \<open>[2, 0]\<close> of its identifiers, once with the offsets \<open>[0, 1]\<close>,
  which are not those of its identifiers.
\<close>

definition ex_plain :: prior_group where
  "ex_plain =
     \<lparr>run_type = ''constrained'', indexes = [2, 0], prior_values = A1 [11 / 2, 77 / 10],
      reach_id = Some [20, 30], node_id = None, value_t = None\<rparr>"

definition ex_plain_bad :: prior_group where
  "ex_plain_bad = ex_plain\<lparr>indexes := [0, 1]\<rparr>"

text \<open>
  A daily record for the two gauged reaches and the days \<open>2002\<close> and \<open>2001\<close>, with the
  payload \<open>[[1, 2], [3, 4]]\<close>, and the same with a third day \<open>2003\<close> and the payload
  \<open>[[1, 2, 5], [3, 4, 6]]\<close>.
\<close>

definition ex_timed :: prior_group where
  "ex_timed =
     \<lparr>run_type = ''constrained'', indexes = [0, 1], prior_values = A2 [[1, 2], [3, 4]],
      reach_id = Some [7, 8], node_id = None,
      value_t = Some [[2002, 2001], [2002, 2001]]\<rparr>"

definition ex_timed3 :: prior_group where
  "ex_timed3 =
     \<lparr>run_type = ''constrained'', indexes = [0, 1], prior_values = A2 [[1, 2, 5], [3, 4, 6]],
      reach_id = Some [7, 8], node_id = None,
      value_t = Some [[2002, 2001, 2003], [2002, 2001, 2003]]\<rparr>"

definition ex_path :: sos_path where
  "ex_path = (''/sos'', ''constrained'', ''na_sos.nc'')"

definition ex_files :: "sos_path \<rightharpoonup> sos" where
  "ex_files = [ex_path \<mapsto> ex_sos]"


section \<open>Properties\<close>

subsection \<open>Splitting and joining\<close>

lemma split_on_nonempty: "split_on c s \<noteq> []"
  by (induction s) (auto simp: Let_def)

lemma split_on_prefix:
  "c \<notin> set s \<Longrightarrow> split_on c (s @ c # p) = s # split_on c p"
  by (induction s) (auto simp: Let_def)

lemma join_split_on: "join_with [c] (split_on c p) = p"
proof (induction p)
  case Nil
  show ?case by simp
next
  case (Cons x p)
  obtain w ws where r: "split_on c p = w # ws"
    using split_on_nonempty [of c p] by (cases "split_on c p") auto
  show ?case
  proof (cases "x = c")
    case True
    with Cons r show ?thesis by simp
  next
    case False
    with Cons r show ?thesis by (cases ws) (auto simp: Let_def)
  qed
qed

lemma hd_split_on_free: "c \<notin> set (hd (split_on c s))"
  by (induction s) (auto simp: Let_def)

text \<open>
  C4. Routing is total and is exactly the five-case table: \<open>determine_group\<close> is a total
  function (it has no error value), it sends wbm and grades to model, grdc to model/grdc,
  gbreach to gbpriors/reach, gbnode to gbpriors/node and every other string to model/usgs,
  and its result is always one of these five paths.
\<close>

theorem determine_group_table:
  "determine_group ''wbm'' = ''model'' \<and>
   determine_group ''grades'' = ''model'' \<and>
   determine_group ''grdc'' = ''model/grdc'' \<and>
   determine_group ''gbreach'' = ''gbpriors/reach'' \<and>
   determine_group ''gbnode'' = ''gbpriors/node'' \<and>
   (source \<notin> {''wbm'', ''grades'', ''grdc'', ''gbreach'', ''gbnode''} \<longrightarrow>
      determine_group source = ''model/usgs'') \<and>
   determine_group source \<in>
     {''model'', ''model/grdc'', ''gbpriors/reach'', ''gbpriors/node'', ''model/usgs''}"
  by (simp add: determine_group_def)

theorem determine_group_table_witness:
  "''unknown_tag'' \<notin> {''wbm'', ''grades'', ''grdc'', ''gbreach'', ''gbnode''} \<and>
   determine_group ''unknown_tag'' = ''model/usgs'' \<and>
   determine_group ''gbnode'' = ''gbpriors/node''"
  using determine_group_table [of "''unknown_tag''"] by simp

text \<open>
  C9. Group-name round trip: when the source tag holds no underscore, parsing the
  builder's group name gives back the source tag and the prior name, whatever the prior
  name is; when the source tag holds an underscore, the parse gives back a different pair.
\<close>

theorem parse_key_group_name:
  "(CHR ''_'' \<notin> set source \<longrightarrow> parse_key (group_name source prior) = (source, prior)) \<and>
   (CHR ''_'' \<in> set source \<longrightarrow> parse_key (group_name source prior) \<noteq> (source, prior))"
proof (intro conjI impI)
  assume free: "CHR ''_'' \<notin> set source"
  have "split_on CHR ''_'' (source @ CHR ''_'' # prior) = source # split_on CHR ''_'' prior"
    using free by (rule split_on_prefix)
  then show "parse_key (group_name source prior) = (source, prior)"
    using join_split_on [of "CHR ''_''" prior]
    by (simp add: parse_key_def group_name_def)
next
  assume has: "CHR ''_'' \<in> set source"
  have "CHR ''_'' \<notin> set (hd (split_on CHR ''_'' (group_name source prior)))"
    by (rule hd_split_on_free)
  with has have "hd (split_on CHR ''_'' (group_name source prior)) \<noteq> source"
    by auto
  then show "parse_key (group_name source prior) \<noteq> (source, prior)"
    by (simp add: parse_key_def)
qed

theorem parse_key_group_name_witness:
  "CHR ''_'' \<notin> set ''usgs'' \<and>
   parse_key (group_name ''usgs'' ''flow_duration_q'') = (''usgs'', ''flow_duration_q'') \<and>
   CHR ''_'' \<in> set ''my_src'' \<and>
   parse_key (group_name ''my_src'' ''q'') \<noteq> (''my_src'', ''q'')"
  using parse_key_group_name [of "''usgs''" "''flow_duration_q''"]
    parse_key_group_name [of "''my_src''" "''q''"]
  by simp

subsection \<open>Offset resolution\<close>

lemma bisect_left_bounds:
  assumes "min_idx \<le> max_idx" "max_idx \<le> length sorter"
    and "\<And>i j. i \<le> j \<Longrightarrow> j < length sorter \<Longrightarrow> a ! (sorter ! i) \<le> a ! (sorter ! j)"
    and "\<And>i. i < min_idx \<Longrightarrow> a ! (sorter ! i) < key_val"
    and "\<And>i. max_idx \<le> i \<Longrightarrow> i < length sorter \<Longrightarrow> key_val \<le> a ! (sorter ! i)"
  shows "bisect_left a sorter key_val min_idx max_idx \<le> max_idx \<and>
     (\<forall>i < bisect_left a sorter key_val min_idx max_idx. a ! (sorter ! i) < key_val) \<and>
     (\<forall>i. bisect_left a sorter key_val min_idx max_idx \<le> i \<and> i < length sorter
          \<longrightarrow> key_val \<le> a ! (sorter ! i))"
  using assms
proof (induction a sorter key_val min_idx max_idx rule: bisect_left.induct)
  case (1 a sorter key_val min_idx max_idx)
  show ?case
  proof (cases "min_idx < max_idx")
    case False
    with "1.prems" have eq: "min_idx = max_idx" by simp
    have "bisect_left a sorter key_val min_idx max_idx = max_idx"
      using eq by (simp add: bisect_left.simps)
    with "1.prems" eq show ?thesis by auto
  next
    case True
    define mid_idx where "mid_idx = min_idx + (max_idx - min_idx) div 2"
    have mid: "min_idx \<le> mid_idx" "mid_idx < max_idx"
      using True by (auto simp: mid_idx_def)
    show ?thesis
    proof (cases "a ! (sorter ! mid_idx) < key_val")
      case lt: True
      have step: "bisect_left a sorter key_val min_idx max_idx =
          bisect_left a sorter key_val (mid_idx + 1) max_idx"
        using True lt by (subst bisect_left.simps) (simp add: mid_idx_def Let_def)
      have below: "\<And>i. i < mid_idx + 1 \<Longrightarrow> a ! (sorter ! i) < key_val"
      proof -
        fix i assume "i < mid_idx + 1"
        then have "i \<le> mid_idx" by simp
        moreover have "mid_idx < length sorter" using mid "1.prems"(2) by simp
        ultimately have "a ! (sorter ! i) \<le> a ! (sorter ! mid_idx)"
          using "1.prems"(3) by blast
        with lt show "a ! (sorter ! i) < key_val" by simp
      qed
      have "bisect_left a sorter key_val (mid_idx + 1) max_idx \<le> max_idx \<and>
         (\<forall>i < bisect_left a sorter key_val (mid_idx + 1) max_idx. a ! (sorter ! i) < key_val) \<and>
         (\<forall>i. bisect_left a sorter key_val (mid_idx + 1) max_idx \<le> i \<and> i < length sorter
            \<longrightarrow> key_val \<le> a ! (sorter ! i))"
        using "1.IH"(1) [OF True mid_idx_def lt _ "1.prems"(2) "1.prems"(3) below "1.prems"(5)] mid
        by simp
      with step show ?thesis by simp
    next
      case ge: False
      have step: "bisect_left a sorter key_val min_idx max_idx =
          bisect_left a sorter key_val min_idx mid_idx"
        using True ge by (subst bisect_left.simps) (simp add: mid_idx_def Let_def)
      have above: "\<And>i. mid_idx \<le> i \<Longrightarrow> i < length sorter \<Longrightarrow> key_val \<le> a ! (sorter ! i)"
      proof -
        fix i assume "mid_idx \<le> i" "i < length sorter"
        then have "a ! (sorter ! mid_idx) \<le> a ! (sorter ! i)"
          using "1.prems"(3) by blast
        with ge show "key_val \<le> a ! (sorter ! i)" by simp
      qed
      have le: "mid_idx \<le> length sorter" using mid "1.prems"(2) by simp
      have "bisect_left a sorter key_val min_idx mid_idx \<le> mid_idx \<and>
         (\<forall>i < bisect_left a sorter key_val min_idx mid_idx. a ! (sorter ! i) < key_val) \<and>
         (\<forall>i. bisect_left a sorter key_val min_idx mid_idx \<le> i \<and> i < length sorter
            \<longrightarrow> key_val \<le> a ! (sorter ! i))"
        using "1.IH"(2) [OF True mid_idx_def ge mid(1) le "1.prems"(3) "1.prems"(4) above]
        by simp
      with step mid show ?thesis by simp
    qed
  qed
qed


lemma length_argsort: "length (argsort a) = length a"
  by (simp add: argsort_def)

lemma set_argsort: "set (argsort a) = {0..<length a}"
  by (simp add: argsort_def)

lemma argsort_sorted:
  assumes "i \<le> j" "j < length a"
  shows "a ! (argsort a ! i) \<le> a ! (argsort a ! j)"
proof -
  have "sorted (map (\<lambda>i. a ! i) (argsort a))"
    by (simp add: argsort_def)
  moreover have "j < length (map (\<lambda>i. a ! i) (argsort a))"
    using assms by (simp add: length_argsort)
  ultimately have "map (\<lambda>i. a ! i) (argsort a) ! i \<le> map (\<lambda>i. a ! i) (argsort a) ! j"
    using assms(1) by (simp add: sorted_nth_mono del: length_map)
  then show ?thesis using assms by (simp add: length_argsort)
qed

lemma searchsorted_hit:
  assumes "v \<in> set a"
  defines "r \<equiv> bisect_left a (argsort a) v 0 (length a)"
  shows "r < length a \<and> argsort a ! r < length a \<and> a ! (argsort a ! r) = v"
proof -
  let ?s = "argsort a"
  have len: "length ?s = length a" by (rule length_argsort)
  have inv: "r \<le> length a \<and> (\<forall>i < r. a ! (?s ! i) < v) \<and>
      (\<forall>i. r \<le> i \<and> i < length ?s \<longrightarrow> v \<le> a ! (?s ! i))"
    unfolding r_def
    by (rule bisect_left_bounds) (simp_all add: len argsort_sorted)
  from assms(1) obtain q where q: "q < length a" "a ! q = v"
    by (auto simp: in_set_conv_nth)
  then have "q \<in> set ?s" by (simp add: set_argsort)
  then obtain p where p: "p < length a" "?s ! p = q"
    by (auto simp: in_set_conv_nth len)
  have "\<not> a ! (?s ! p) < v" using p q by simp
  with inv have rp: "r \<le> p" by (meson not_le_imp_less)
  with p have rlt: "r < length a" by simp
  have "a ! (?s ! r) \<le> a ! (?s ! p)" using rp p(1) by (rule argsort_sorted)
  moreover have "v \<le> a ! (?s ! r)" using inv rlt len by simp
  ultimately have "a ! (?s ! r) = v" using p q by simp
  moreover have "?s ! r \<in> set ?s" using rlt len by simp
  then have "?s ! r < length a" by (simp add: set_argsort)
  ultimately show ?thesis using rlt by simp
qed

lemma resolve_offsets_found:
  assumes "set prior_ids \<subseteq> set sos_ids"
  shows "\<exists>offs. resolve_offsets sos_ids prior_ids = Inr offs \<and>
           length offs = length prior_ids \<and>
           (\<forall>i < length prior_ids. offs ! i < length sos_ids \<and> sos_ids ! (offs ! i) = prior_ids ! i)"
proof -
  let ?s = "argsort sos_ids"
  let ?ins = "searchsorted sos_ids prior_ids ?s"
  have hit: "\<And>i. i < length prior_ids \<Longrightarrow>
      ?ins ! i < length sos_ids \<and> ?s ! (?ins ! i) < length sos_ids \<and>
      sos_ids ! (?s ! (?ins ! i)) = prior_ids ! i"
  proof -
    fix i assume i: "i < length prior_ids"
    then have "prior_ids ! i \<in> set sos_ids" using assms by auto
    from searchsorted_hit [OF this] i show
      "?ins ! i < length sos_ids \<and> ?s ! (?ins ! i) < length sos_ids \<and>
        sos_ids ! (?s ! (?ins ! i)) = prior_ids ! i"
      by (simp add: searchsorted_def)
  qed
  have lenins: "length ?ins = length prior_ids" by (simp add: searchsorted_def)
  have "\<forall>k \<in> set ?ins. k < length ?s"
  proof
    fix k assume "k \<in> set ?ins"
    then obtain i where "i < length prior_ids" "?ins ! i = k"
      by (auto simp: in_set_conv_nth lenins)
    with hit [of i] show "k < length ?s" by (simp add: length_argsort)
  qed
  then have "resolve_offsets sos_ids prior_ids = Inr (map (\<lambda>k. ?s ! k) ?ins)"
    by (simp add: resolve_offsets_def np_take_def Let_def)
  moreover have "\<forall>i < length prior_ids. map (\<lambda>k. ?s ! k) ?ins ! i < length sos_ids \<and>
      sos_ids ! (map (\<lambda>k. ?s ! k) ?ins ! i) = prior_ids ! i"
    using hit by (simp add: lenins)
  ultimately show ?thesis using lenins by simp
qed

text \<open>
  C1. Offset resolution is correct: when the store identifiers are pairwise distinct and
  every source identifier occurs among them (so the store has at least as many entries as
  the source has distinct ones), the offsets are computed without an exception, there is
  one per source identifier, and the store identifier at offset \<open>i\<close> is the \<open>i\<close>-th
  source identifier. For the store \<open>[30, 10, 20]\<close> and the source \<open>[20, 30]\<close> the
  offsets are \<open>[2, 0]\<close>.
\<close>

theorem resolve_offsets_correct:
  "(distinct store_ids \<and> set source_ids \<subseteq> set store_ids \<and> length source_ids \<le> length store_ids
     \<longrightarrow> (\<exists>offsets. resolve_offsets store_ids source_ids = Inr offsets \<and>
            length offsets = length source_ids \<and>
            (\<forall>i < length source_ids. offsets ! i < length store_ids \<and>
                store_ids ! (offsets ! i) = source_ids ! i))) \<and>
   resolve_offsets [30, 10, 20] [20, 30] = Inr [2, 0]"
proof
  show "distinct store_ids \<and> set source_ids \<subseteq> set store_ids \<and> length source_ids \<le> length store_ids
     \<longrightarrow> (\<exists>offsets. resolve_offsets store_ids source_ids = Inr offsets \<and>
            length offsets = length source_ids \<and>
            (\<forall>i < length source_ids. offsets ! i < length store_ids \<and>
                store_ids ! (offsets ! i) = source_ids ! i))"
    using resolve_offsets_found [of source_ids store_ids] by blast
  show "resolve_offsets [30, 10, 20] [20, 30] = Inr [2, 0]"
    by code_simp
qed

theorem resolve_offsets_correct_witness:
  "distinct [30, 10, 20 :: int] \<and> set [20, 30] \<subseteq> set [30, 10, 20 :: int] \<and>
   resolve_offsets [30, 10, 20] [20, 30] = Inr [2, 0] \<and>
   [30, 10, 20 :: int] ! ([2, 0] ! 0) = [20, 30] ! 0 \<and>
   [30, 10, 20 :: int] ! ([2, 0] ! 1) = [20, 30] ! 1"
  using resolve_offsets_correct [of "[30, 10, 20]" "[20, 30]"] by simp

subsection \<open>Identifier resolution\<close>

text \<open>
  C5. Identifier-resolution source selection: a record without a reach identifier
  variable takes both identifier sequences from node arrays, its own \<open>node_id\<close> and the
  store's \<open>nodes/node_id\<close>; a record with one takes its own \<open>reach_id\<close> and, from the
  store, \<open>model/usgs/usgs_reach_id\<close> for the source usgs, \<open>model/grdc/grdc_reach_id\<close>
  for the source grdc and \<open>reaches/reach_id\<close> for every other source. A variable that is
  absent raises.
\<close>

theorem test_ids_selection:
  "(reach_id priors_ds = None \<longrightarrow>
      test_ids source priors_ds sos_ds =
        (case node_id priors_ds of
           None \<Rightarrow> Inl IndexError
         | Some prior_ids \<Rightarrow>
             (case id_vars sos_ds ''nodes/node_id'' of
                None \<Rightarrow> Inl IndexError
              | Some sos_ids \<Rightarrow> Inr (prior_ids, sos_ids)))) \<and>
   (\<forall>prior_ids. reach_id priors_ds = Some prior_ids \<longrightarrow>
      test_ids source priors_ds sos_ds =
        (case id_vars sos_ds
                (if source = ''usgs'' then ''model/usgs/usgs_reach_id''
                 else if source = ''grdc'' then ''model/grdc/grdc_reach_id''
                 else ''reaches/reach_id'') of
           None \<Rightarrow> Inl IndexError
         | Some sos_ids \<Rightarrow> Inr (prior_ids, sos_ids)))"
  by (simp add: test_ids_def retrieve_ids_def get_var_def lookup_def split: option.splits)

theorem test_ids_selection_witness:
  "test_ids ''gbnode''
     \<lparr>run_type = ''constrained'', indexes = [0], prior_values = A1 [1],
      reach_id = None, node_id = Some [5], value_t = None\<rparr>
     \<lparr>id_vars = [''nodes/node_id'' \<mapsto> [5, 6], ''reaches/reach_id'' \<mapsto> [1, 2]],
      time_vars = Map.empty, data_vars = Map.empty\<rparr> = Inr ([5], [5, 6]) \<and>
   test_ids ''grdc''
     \<lparr>run_type = ''constrained'', indexes = [0], prior_values = A1 [1],
      reach_id = Some [2], node_id = None, value_t = None\<rparr>
     \<lparr>id_vars = [''model/grdc/grdc_reach_id'' \<mapsto> [2, 3], ''reaches/reach_id'' \<mapsto> [1, 2]],
      time_vars = Map.empty, data_vars = Map.empty\<rparr> = Inr ([2], [2, 3]) \<and>
   test_ids ''wbm''
     \<lparr>run_type = ''constrained'', indexes = [0], prior_values = A1 [1],
      reach_id = Some [2], node_id = None, value_t = None\<rparr>
     \<lparr>id_vars = [''model/grdc/grdc_reach_id'' \<mapsto> [2, 3], ''reaches/reach_id'' \<mapsto> [1, 2]],
      time_vars = Map.empty, data_vars = Map.empty\<rparr> = Inr ([2], [1, 2])"
  using
    test_ids_selection [of "\<lparr>run_type = ''constrained'', indexes = [0], prior_values = A1 [1],
      reach_id = None, node_id = Some [5], value_t = None\<rparr>" "''gbnode''"
      "\<lparr>id_vars = [''nodes/node_id'' \<mapsto> [5, 6], ''reaches/reach_id'' \<mapsto> [1, 2]],
      time_vars = Map.empty, data_vars = Map.empty\<rparr>"]
    test_ids_selection [of "\<lparr>run_type = ''constrained'', indexes = [0], prior_values = A1 [1],
      reach_id = Some [2], node_id = None, value_t = None\<rparr>" "''grdc''"
      "\<lparr>id_vars = [''model/grdc/grdc_reach_id'' \<mapsto> [2, 3], ''reaches/reach_id'' \<mapsto> [1, 2]],
      time_vars = Map.empty, data_vars = Map.empty\<rparr>"]
    test_ids_selection [of "\<lparr>run_type = ''constrained'', indexes = [0], prior_values = A1 [1],
      reach_id = Some [2], node_id = None, value_t = None\<rparr>" "''wbm''"
      "\<lparr>id_vars = [''model/grdc/grdc_reach_id'' \<mapsto> [2, 3], ''reaches/reach_id'' \<mapsto> [1, 2]],
      time_vars = Map.empty, data_vars = Map.empty\<rparr>"]
  by simp

subsection \<open>The name of the exchange file\<close>

text \<open>
  C10. \<open>create_netcdf\<close> builds the file name from the free name \<open>author\<close>, not from
  the attribute of the instance: where no global \<open>author\<close> is bound, the call raises
  \<open>NameError\<close> and leaves the files as they were, whatever the instance holds.
\<close>

theorem create_netcdf_free_author:
  "globals ''author'' = None \<Longrightarrow>
     create_netcdf globals now self files = (files, Some (NameError ''author''))"
  by (simp add: create_netcdf_def)

theorem create_netcdf_free_author_witness:
  "create_netcdf Map.empty ''04-Nov-2026 00:00:00''
     \<lparr>author = ''Jane Doe'', email = ''jane@example.org'', priors_dict = Some [],
      store_sos_file = ''na_sword_v15_SOS_priors.nc'', output_dir = ''/out''\<rparr> Map.empty
   = (Map.empty, Some (NameError ''author''))"
  using create_netcdf_free_author [of Map.empty "''04-Nov-2026 00:00:00''"
     "\<lparr>author = ''Jane Doe'', email = ''jane@example.org'', priors_dict = Some [],
      store_sos_file = ''na_sword_v15_SOS_priors.nc'', output_dir = ''/out''\<rparr>" Map.empty]
  by simp

subsection \<open>The loop over the groups\<close>

lemma overwrite_loop_step:
  assumes "files (sos_dir, run_type priors_ds, sf) = Some sos_ds"
    and "overwrite_group (fst (parse_key key)) (snd (parse_key key)) priors_ds sos_ds = (sos_ds', Inr ok)"
  shows "overwrite_loop uc sos_dir sf ((key, priors_ds) # rest) files =
     (case overwrite_loop uc sos_dir sf rest (files((sos_dir, run_type priors_ds, sf) \<mapsto> sos_ds')) of
        (files', evs, err) \<Rightarrow> (files', group_trace uc sos_dir sf ((key, priors_ds), ok) @ evs, err))"
  using assms by (simp add: parse_key_def group_trace_def Let_def split: prod.splits)

lemma loop_verdicts_step:
  assumes "files (sos_dir, run_type priors_ds, sf) = Some sos_ds"
    and "overwrite_group (fst (parse_key key)) (snd (parse_key key)) priors_ds sos_ds = (sos_ds', Inr ok)"
  shows "loop_verdicts sos_dir sf ((key, priors_ds) # rest) files =
     ok # loop_verdicts sos_dir sf rest (files((sos_dir, run_type priors_ds, sf) \<mapsto> sos_ds'))"
  using assms by (simp add: parse_key_def Let_def)

lemma overwrite_loop_events:
  "\<exists>tail. fst (snd (overwrite_loop uc sos_dir sf gs files)) =
       concat (map (group_trace uc sos_dir sf) (zip gs (loop_verdicts sos_dir sf gs files))) @ tail \<and>
     (tail = [] \<or> (\<exists>p. tail = [Opened p])) \<and>
     (snd (snd (overwrite_loop uc sos_dir sf gs files)) = None \<longrightarrow>
        tail = [] \<and> length (loop_verdicts sos_dir sf gs files) = length gs)"
proof (induction gs arbitrary: files)
  case Nil
  show ?case by simp
next
  case (Cons kg gs)
  obtain key priors_ds where kg: "kg = (key, priors_ds)" by (cases kg)
  let ?p = "(sos_dir, run_type priors_ds, sf)"
  show ?case
  proof (cases "files ?p")
    case None
    then show ?thesis using kg by (simp add: Let_def)
  next
    case (Some sos_ds)
    obtain sos_ds' res where body:
      "overwrite_group (fst (parse_key key)) (snd (parse_key key)) priors_ds sos_ds = (sos_ds', res)"
      by (cases "overwrite_group (fst (parse_key key)) (snd (parse_key key)) priors_ds sos_ds")
    show ?thesis
    proof (cases res)
      case (Inl e)
      with Some body kg show ?thesis by (simp add: Let_def parse_key_def)
    next
      case (Inr ok)
      let ?files1 = "files(?p \<mapsto> sos_ds')"
      define E1 where "E1 = fst (snd (overwrite_loop uc sos_dir sf gs ?files1))"
      define N1 where "N1 = snd (snd (overwrite_loop uc sos_dir sf gs ?files1))"
      define V1 where "V1 = loop_verdicts sos_dir sf gs ?files1"
      define C1 where "C1 = concat (map (group_trace uc sos_dir sf) (zip gs V1))"
      have ih: "\<exists>tail. E1 = C1 @ tail \<and> (tail = [] \<or> (\<exists>p. tail = [Opened p])) \<and>
          (N1 = None \<longrightarrow> tail = [] \<and> length V1 = length gs)"
        unfolding E1_def N1_def C1_def V1_def by (rule Cons.IH)
      then obtain tail where
        t: "E1 = C1 @ tail" "tail = [] \<or> (\<exists>p. tail = [Opened p])"
          "N1 = None \<longrightarrow> tail = [] \<and> length V1 = length gs"
        by blast
      have l: "overwrite_loop uc sos_dir sf (kg # gs) files =
          (case overwrite_loop uc sos_dir sf gs ?files1 of
             (files', evs, err) \<Rightarrow> (files', group_trace uc sos_dir sf ((key, priors_ds), ok) @ evs, err))"
        unfolding kg using Some body [unfolded Inr] by (rule overwrite_loop_step)
      have v: "loop_verdicts sos_dir sf (kg # gs) files = ok # V1"
        unfolding kg V1_def using Some body [unfolded Inr] by (rule loop_verdicts_step)
      have e: "fst (snd (overwrite_loop uc sos_dir sf (kg # gs) files)) =
          group_trace uc sos_dir sf ((key, priors_ds), ok) @ E1"
        and n: "snd (snd (overwrite_loop uc sos_dir sf (kg # gs) files)) = N1"
        unfolding l E1_def N1_def by (simp_all add: case_prod_unfold)
      define E where "E = fst (snd (overwrite_loop uc sos_dir sf (kg # gs) files))"
      define N where "N = snd (snd (overwrite_loop uc sos_dir sf (kg # gs) files))"
      define V where "V = loop_verdicts sos_dir sf (kg # gs) files"
      define C where "C = concat (map (group_trace uc sos_dir sf) (zip (kg # gs) V))"
      have vv: "V = ok # V1"
        unfolding V_def by (rule v)
      have c: "C = group_trace uc sos_dir sf ((key, priors_ds), ok) @ C1"
        unfolding C_def C1_def vv kg by simp
      have "E = C @ tail"
        unfolding E_def e c t(1) by simp
      moreover have "N = None \<longrightarrow> tail = [] \<and> length V = length (kg # gs)"
        unfolding N_def n vv using t(3) by simp
      ultimately have "\<exists>tail. E = C @ tail \<and> (tail = [] \<or> (\<exists>p. tail = [Opened p])) \<and>
          (N = None \<longrightarrow> tail = [] \<and> length V = length (kg # gs))"
        using t(2) by blast
      then show ?thesis
        unfolding E_def N_def C_def V_def .
    qed
  qed
qed

lemma printed_group_trace:
  "printed (group_trace uc sos_dir sf ((key, g), ok) @ evs) =
     status_line uc ok (fst (parse_key key)) (snd (parse_key key)) (run_type g) # printed evs"
  by (simp add: printed_def group_trace_def)

lemma printed_traces:
  "tail = [] \<or> (\<exists>p. tail = [Opened p]) \<Longrightarrow>
   printed (concat (map (group_trace uc sos_dir sf) (zip gs oks)) @ tail) =
     map (\<lambda>((key, g), ok). status_line uc ok (fst (parse_key key)) (snd (parse_key key)) (run_type g))
       (zip gs oks)"
proof (induction gs arbitrary: oks)
  case Nil
  then show ?case by (auto simp: printed_def)
next
  case (Cons kg gs)
  obtain key g where kg: "kg = (key, g)" by (cases kg)
  show ?case
  proof (cases oks)
    case Nil
    with Cons.prems show ?thesis by (auto simp: printed_def)
  next
    case (Cons ok oks')
    from Cons.IH [OF Cons.prems, of oks'] show ?thesis
      using Cons kg by (simp add: printed_group_trace)
  qed
qed

lemma length_status_line:
  "length (status_line uc False source prior rt) = length (status_line uc True source prior rt) + 13"
  unfolding status_line_def Let_def by (simp only: if_True if_False length_append list.size)

lemma upper_ascii:
  "(\<And>c. c \<in> set s \<Longrightarrow> (of_char c :: nat) < 128) \<Longrightarrow> upper uc s = map upper_char s"
  by (induction s) (auto simp: upper_def)

lemma upper_gbpriors: "upper uc ''gbpriors'' = ''GBPRIORS''"
  unfolding upper_def by code_simp

lemma length_loop_verdicts: "length (loop_verdicts sos_dir sf gs files) \<le> length gs"
proof (induction gs arbitrary: files)
  case Nil
  show ?case by simp
next
  case (Cons kg gs)
  obtain key g where kg: "kg = (key, g)" by (cases kg)
  show ?case
    unfolding kg using Cons.IH
    by (auto simp: Let_def le_SucI split: option.splits prod.splits sum.splits)
qed

text \<open>
  C6. A verification failure is not fatal. When the body of the loop returns the verdict
  false for a group, what the run shows of the group is the opening of its SoS file, the
  failure status of the group (the line that starts with \<open>FAILURE:\<close> and names its
  source, prior and run type) and the closing of the file, in this order, and the run goes
  on with the rest of the groups from the files as that group left them. The failure
  status is never the success status. Every run, however it ends, shows this triple for
  each group that reached its verdict, in the order of the groups, with the status of that
  group's verdict; after the triples comes at most the opening of the file of the group
  whose body raised. A run that ends without an exception has a triple for every group.
\<close>

theorem verification_failure_continues:
  "(files (sos_dir, run_type priors_ds, sf) = Some sos_ds \<and>
    overwrite_group (fst (parse_key key)) (snd (parse_key key)) priors_ds sos_ds = (sos_ds', Inr False)
    \<longrightarrow> overwrite_loop uc sos_dir sf ((key, priors_ds) # rest) files =
          (case overwrite_loop uc sos_dir sf rest (files((sos_dir, run_type priors_ds, sf) \<mapsto> sos_ds')) of
             (files', evs, err) \<Rightarrow>
               (files',
                [Opened (sos_dir, run_type priors_ds, sf),
                 Printed (''FAILURE: ''
                   @ upper uc (if fst (parse_key key) = ''gbreach'' \<or> fst (parse_key key) = ''gbnode''
                               then ''gbpriors'' else fst (parse_key key))
                   @ '': '' @ [CHR 0x27] @ snd (parse_key key) @ [CHR 0x27]
                   @ '' has NOT been overwritten in the SoS ('' @ run_type priors_ds @ '').''),
                 Closed (sos_dir, run_type priors_ds, sf)] @ evs,
                err))) \<and>
   status_line uc False source prior rt \<noteq> status_line uc True source prior rt \<and>
   (\<exists>tail. fst (snd (overwrite_loop uc sos_dir sf gs files)) =
        concat (map (group_trace uc sos_dir sf) (zip gs (loop_verdicts sos_dir sf gs files))) @ tail \<and>
      (tail = [] \<or> (\<exists>p. tail = [Opened p])) \<and>
      (snd (snd (overwrite_loop uc sos_dir sf gs files)) = None \<longrightarrow>
         tail = [] \<and> length (loop_verdicts sos_dir sf gs files) = length gs))"
proof (intro conjI impI)
  assume "files (sos_dir, run_type priors_ds, sf) = Some sos_ds \<and>
    overwrite_group (fst (parse_key key)) (snd (parse_key key)) priors_ds sos_ds = (sos_ds', Inr False)"
  then have h: "files (sos_dir, run_type priors_ds, sf) = Some sos_ds"
    "overwrite_group (fst (parse_key key)) (snd (parse_key key)) priors_ds sos_ds = (sos_ds', Inr False)"
    by simp_all
  have "overwrite_loop uc sos_dir sf ((key, priors_ds) # rest) files =
      (case overwrite_loop uc sos_dir sf rest (files((sos_dir, run_type priors_ds, sf) \<mapsto> sos_ds')) of
         (files', evs, err) \<Rightarrow>
           (files', group_trace uc sos_dir sf ((key, priors_ds), False) @ evs, err))"
    using h by (rule overwrite_loop_step)
  then show "overwrite_loop uc sos_dir sf ((key, priors_ds) # rest) files =
      (case overwrite_loop uc sos_dir sf rest (files((sos_dir, run_type priors_ds, sf) \<mapsto> sos_ds')) of
         (files', evs, err) \<Rightarrow>
           (files',
            [Opened (sos_dir, run_type priors_ds, sf),
             Printed (''FAILURE: ''
               @ upper uc (if fst (parse_key key) = ''gbreach'' \<or> fst (parse_key key) = ''gbnode''
                           then ''gbpriors'' else fst (parse_key key))
               @ '': '' @ [CHR 0x27] @ snd (parse_key key) @ [CHR 0x27]
               @ '' has NOT been overwritten in the SoS ('' @ run_type priors_ds @ '').''),
             Closed (sos_dir, run_type priors_ds, sf)] @ evs,
            err))"
    by (simp add: group_trace_def status_line_def)
next
  show "status_line uc False source prior rt \<noteq> status_line uc True source prior rt"
    using length_status_line [of uc source prior rt] by auto
next
  show "\<exists>tail. fst (snd (overwrite_loop uc sos_dir sf gs files)) =
        concat (map (group_trace uc sos_dir sf) (zip gs (loop_verdicts sos_dir sf gs files))) @ tail \<and>
      (tail = [] \<or> (\<exists>p. tail = [Opened p])) \<and>
      (snd (snd (overwrite_loop uc sos_dir sf gs files)) = None \<longrightarrow>
         tail = [] \<and> length (loop_verdicts sos_dir sf gs files) = length gs)"
    by (rule overwrite_loop_events)
qed

theorem verification_failure_continues_witness:
  "ex_files ex_path = Some ex_sos \<and>
   snd (overwrite_group ''wbm'' ''a'' ex_plain_bad ex_sos) = Inr False \<and>
   fst (snd (overwrite_loop (\<lambda>c. [c]) ''/sos'' ''na_sos.nc''
               [(''wbm_a'', ex_plain_bad), (''wbm_b'', ex_plain)] ex_files)) =
     [Opened ex_path,
      Printed (''FAILURE: WBM: '' @ [CHR 0x27] @ ''a'' @ [CHR 0x27]
               @ '' has NOT been overwritten in the SoS (constrained).''),
      Closed ex_path,
      Opened ex_path,
      Printed (''WBM: '' @ [CHR 0x27] @ ''b'' @ [CHR 0x27]
               @ '' has been overwritten in the SoS (constrained).''),
      Closed ex_path] \<and>
   snd (snd (overwrite_loop (\<lambda>c. [c]) ''/sos'' ''na_sos.nc''
               [(''wbm_a'', ex_plain_bad), (''wbm_b'', ex_plain)] ex_files)) = None \<and>
   loop_verdicts ''/sos'' ''na_sos.nc'' [(''wbm_a'', ex_plain_bad), (''wbm_b'', ex_plain)] ex_files
     = [False, True]"
proof -
  let ?uc = "\<lambda>c :: char. [c]"
  let ?st = "fst (overwrite_group ''wbm'' ''a'' ex_plain_bad ex_sos)"
  let ?rest = "overwrite_loop ?uc ''/sos'' ''na_sos.nc'' [(''wbm_b'', ex_plain)]
        (ex_files((''/sos'', ''constrained'', ''na_sos.nc'') \<mapsto> ?st))"
  have pk: "fst (parse_key ''wbm_a'') = ''wbm''" "snd (parse_key ''wbm_a'') = ''a''"
    by code_simp+
  have rt: "run_type ex_plain_bad = ''constrained''"
    by code_simp
  have h1: "ex_files (''/sos'', run_type ex_plain_bad, ''na_sos.nc'') = Some ex_sos"
    by (simp add: rt ex_files_def ex_path_def)
  have v: "snd (overwrite_group ''wbm'' ''a'' ex_plain_bad ex_sos) = Inr False"
    by code_simp
  then have h2: "overwrite_group (fst (parse_key ''wbm_a'')) (snd (parse_key ''wbm_a'')) ex_plain_bad ex_sos
      = (?st, Inr False)"
    by (simp add: pk prod_eq_iff)
  have up: "upper ?uc ''wbm'' = ''WBM''"
    by code_simp
  have r1: "fst (snd ?rest) =
      [Opened ex_path,
       Printed (''WBM: '' @ [CHR 0x27] @ ''b'' @ [CHR 0x27]
                @ '' has been overwritten in the SoS (constrained).''),
       Closed ex_path]"
    by code_simp
  have r2: "snd (snd ?rest) = None"
    by code_simp
  have step: "overwrite_loop ?uc ''/sos'' ''na_sos.nc'' ((''wbm_a'', ex_plain_bad) # [(''wbm_b'', ex_plain)]) ex_files =
      (case overwrite_loop ?uc ''/sos'' ''na_sos.nc'' [(''wbm_b'', ex_plain)]
              (ex_files((''/sos'', run_type ex_plain_bad, ''na_sos.nc'') \<mapsto> ?st)) of
         (files', evs, err) \<Rightarrow>
           (files',
            [Opened (''/sos'', run_type ex_plain_bad, ''na_sos.nc''),
             Printed (''FAILURE: ''
               @ upper ?uc (if fst (parse_key ''wbm_a'') = ''gbreach'' \<or> fst (parse_key ''wbm_a'') = ''gbnode''
                           then ''gbpriors'' else fst (parse_key ''wbm_a''))
               @ '': '' @ [CHR 0x27] @ snd (parse_key ''wbm_a'') @ [CHR 0x27]
               @ '' has NOT been overwritten in the SoS ('' @ run_type ex_plain_bad @ '').''),
             Closed (''/sos'', run_type ex_plain_bad, ''na_sos.nc'')] @ evs,
            err))"
    using verification_failure_continues
      [of ex_files "''/sos''" ex_plain_bad "''na_sos.nc''" ex_sos "''wbm_a''" ?st ?uc
          "[(''wbm_b'', ex_plain)]"]
      h1 h2 by blast
  have evs: "fst (snd (overwrite_loop ?uc ''/sos'' ''na_sos.nc''
               [(''wbm_a'', ex_plain_bad), (''wbm_b'', ex_plain)] ex_files)) =
     [Opened ex_path,
      Printed (''FAILURE: WBM: '' @ [CHR 0x27] @ ''a'' @ [CHR 0x27]
               @ '' has NOT been overwritten in the SoS (constrained).''),
      Closed ex_path,
      Opened ex_path,
      Printed (''WBM: '' @ [CHR 0x27] @ ''b'' @ [CHR 0x27]
               @ '' has been overwritten in the SoS (constrained).''),
      Closed ex_path]"
    unfolding step
    by (simp add: case_prod_unfold rt pk up r1 ex_path_def del: overwrite_loop.simps)
  have none: "snd (snd (overwrite_loop ?uc ''/sos'' ''na_sos.nc''
               [(''wbm_a'', ex_plain_bad), (''wbm_b'', ex_plain)] ex_files)) = None"
    unfolding step
    by (simp add: case_prod_unfold rt r2 del: overwrite_loop.simps)
  have vs: "loop_verdicts ''/sos'' ''na_sos.nc'' [(''wbm_a'', ex_plain_bad), (''wbm_b'', ex_plain)] ex_files
     = [False, True]"
    by code_simp
  have h1': "ex_files ex_path = Some ex_sos"
    by (simp add: ex_files_def)
  show ?thesis by (intro conjI h1' v evs none vs)
qed

text \<open>
  C7. The status line. Every run prints exactly one line for each group that reaches its
  verdict, in the order of the groups, and nothing else: the status line of the group's
  source, prior and run type, for the value \<open>success\<close> has in that iteration. A run that
  ends without an exception prints a line for every group. On success the line is the
  source tag in upper case, a colon, the prior between single quotes and
  \<open>has been overwritten in the SoS (run_type).\<close>; on failure it starts with
  \<open>FAILURE:\<close> and says \<open>has NOT been overwritten\<close>. The sources gbreach and gbnode
  are both printed as \<open>GBPRIORS\<close>. Upper case, for an ASCII tag, is character by
  character: a lower-case letter goes to the letter 32 code points below, any other
  character stays.
\<close>

theorem status_line_format:
  "printed (fst (snd (overwrite_loop uc sos_dir sf gs files))) =
     map (\<lambda>((key, g), ok). status_line uc ok (fst (parse_key key)) (snd (parse_key key)) (run_type g))
       (zip gs (loop_verdicts sos_dir sf gs files)) \<and>
   length (printed (fst (snd (overwrite_loop uc sos_dir sf gs files)))) =
     length (loop_verdicts sos_dir sf gs files) \<and>
   (snd (snd (overwrite_loop uc sos_dir sf gs files)) = None \<longrightarrow>
      length (loop_verdicts sos_dir sf gs files) = length gs) \<and>
   (files (sos_dir, run_type priors_ds, sf) = Some sos_ds \<and>
    overwrite_group (fst (parse_key key)) (snd (parse_key key)) priors_ds sos_ds = (sos_ds', Inr ok)
    \<longrightarrow> loop_verdicts sos_dir sf ((key, priors_ds) # rest) files =
          ok # loop_verdicts sos_dir sf rest (files((sos_dir, run_type priors_ds, sf) \<mapsto> sos_ds'))) \<and>
   status_line uc True source prior rt =
     upper uc (if source = ''gbreach'' \<or> source = ''gbnode'' then ''gbpriors'' else source)
     @ '': '' @ [CHR 0x27] @ prior @ [CHR 0x27] @ '' has been overwritten in the SoS ('' @ rt @ '').'' \<and>
   status_line uc False source prior rt =
     ''FAILURE: '' @ upper uc (if source = ''gbreach'' \<or> source = ''gbnode'' then ''gbpriors'' else source)
     @ '': '' @ [CHR 0x27] @ prior @ [CHR 0x27] @ '' has NOT been overwritten in the SoS ('' @ rt @ '').'' \<and>
   upper uc ''gbpriors'' = ''GBPRIORS'' \<and>
   ((\<forall>c \<in> set source. (of_char c :: nat) < 128) \<longrightarrow> upper uc source = map upper_char source) \<and>
   (97 \<le> (of_char c :: nat) \<and> (of_char c :: nat) \<le> 122 \<longrightarrow>
      (of_char (upper_char c) :: nat) = of_char c - 32) \<and>
   (\<not> (97 \<le> (of_char c :: nat) \<and> (of_char c :: nat) \<le> 122) \<longrightarrow> upper_char c = c)"
proof -
  define E where "E = fst (snd (overwrite_loop uc sos_dir sf gs files))"
  define N where "N = snd (snd (overwrite_loop uc sos_dir sf gs files))"
  define V where "V = loop_verdicts sos_dir sf gs files"
  define C where "C = concat (map (group_trace uc sos_dir sf) (zip gs V))"
  have "\<exists>tail. E = C @ tail \<and> (tail = [] \<or> (\<exists>p. tail = [Opened p])) \<and>
      (N = None \<longrightarrow> tail = [] \<and> length V = length gs)"
    unfolding E_def C_def V_def N_def by (rule overwrite_loop_events)
  then obtain tail where t: "E = C @ tail" "tail = [] \<or> (\<exists>p. tail = [Opened p])"
    and full: "N = None \<longrightarrow> length V = length gs"
    by blast
  have p1: "printed E =
     map (\<lambda>((key, g), ok). status_line uc ok (fst (parse_key key)) (snd (parse_key key)) (run_type g))
       (zip gs V)"
    unfolding t(1) C_def using t(2) by (rule printed_traces)
  have "length V \<le> length gs"
    unfolding V_def by (rule length_loop_verdicts)
  with p1 have p2: "length (printed E) = length V" by simp
  have step: "files (sos_dir, run_type priors_ds, sf) = Some sos_ds \<and>
      overwrite_group (fst (parse_key key)) (snd (parse_key key)) priors_ds sos_ds = (sos_ds', Inr ok)
      \<longrightarrow> loop_verdicts sos_dir sf ((key, priors_ds) # rest) files =
            ok # loop_verdicts sos_dir sf rest (files((sos_dir, run_type priors_ds, sf) \<mapsto> sos_ds'))"
  proof
    assume "files (sos_dir, run_type priors_ds, sf) = Some sos_ds \<and>
      overwrite_group (fst (parse_key key)) (snd (parse_key key)) priors_ds sos_ds = (sos_ds', Inr ok)"
    then have h: "files (sos_dir, run_type priors_ds, sf) = Some sos_ds"
      "overwrite_group (fst (parse_key key)) (snd (parse_key key)) priors_ds sos_ds = (sos_ds', Inr ok)"
      by simp_all
    from h show "loop_verdicts sos_dir sf ((key, priors_ds) # rest) files =
        ok # loop_verdicts sos_dir sf rest (files((sos_dir, run_type priors_ds, sf) \<mapsto> sos_ds'))"
      by (rule loop_verdicts_step)
  qed
  have s1: "status_line uc True source prior rt =
     upper uc (if source = ''gbreach'' \<or> source = ''gbnode'' then ''gbpriors'' else source)
     @ '': '' @ [CHR 0x27] @ prior @ [CHR 0x27] @ '' has been overwritten in the SoS ('' @ rt @ '').''"
    by (simp add: status_line_def)
  have s2: "status_line uc False source prior rt =
     ''FAILURE: '' @ upper uc (if source = ''gbreach'' \<or> source = ''gbnode'' then ''gbpriors'' else source)
     @ '': '' @ [CHR 0x27] @ prior @ [CHR 0x27] @ '' has NOT been overwritten in the SoS ('' @ rt @ '').''"
    by (simp add: status_line_def)
  have u1: "upper uc ''gbpriors'' = ''GBPRIORS''"
    by (rule upper_gbpriors)
  have u2: "(\<forall>c \<in> set source. (of_char c :: nat) < 128) \<longrightarrow> upper uc source = map upper_char source"
    using upper_ascii [of source uc] by blast
  have u3: "97 \<le> (of_char c :: nat) \<and> (of_char c :: nat) \<le> 122 \<longrightarrow>
      (of_char (upper_char c) :: nat) = of_char c - 32"
  proof
    assume a: "97 \<le> (of_char c :: nat) \<and> (of_char c :: nat) \<le> 122"
    then have "(of_char c :: nat) - 32 < 256" by arith
    then have "((of_char c :: nat) - 32) mod 256 = of_char c - 32" by (rule mod_less)
    with a show "(of_char (upper_char c) :: nat) = of_char c - 32"
      by (simp add: upper_char_def Let_def)
  qed
  have u4: "\<not> (97 \<le> (of_char c :: nat) \<and> (of_char c :: nat) \<le> 122) \<longrightarrow> upper_char c = c"
    by (simp add: upper_char_def Let_def)
  show ?thesis
    using p1 p2 full step s1 s2 u1 u2 u3 u4 unfolding E_def V_def N_def by (intro conjI)
qed

theorem status_line_format_witness:
  "loop_verdicts ''/sos'' ''na_sos.nc''
     [(''wbm_b'', ex_plain), (''usgs_usgs_q'', ex_timed3), (''wbm_a'', ex_plain_bad)] ex_files = [True] \<and>
   snd (snd (overwrite_loop (\<lambda>c. [c]) ''/sos'' ''na_sos.nc''
      [(''wbm_b'', ex_plain), (''usgs_usgs_q'', ex_timed3), (''wbm_a'', ex_plain_bad)] ex_files))
     = Some IndexError \<and>
   printed (fst (snd (overwrite_loop (\<lambda>c. [c]) ''/sos'' ''na_sos.nc''
      [(''wbm_b'', ex_plain), (''usgs_usgs_q'', ex_timed3), (''wbm_a'', ex_plain_bad)] ex_files)))
     = [''WBM: '' @ [CHR 0x27] @ ''b'' @ [CHR 0x27] @ '' has been overwritten in the SoS (constrained).''] \<and>
   loop_verdicts ''/sos'' ''na_sos.nc'' [(''wbm_a'', ex_plain_bad), (''wbm_b'', ex_plain)] ex_files
     = [False, True] \<and>
   snd (snd (overwrite_loop (\<lambda>c. [c]) ''/sos'' ''na_sos.nc''
      [(''wbm_a'', ex_plain_bad), (''wbm_b'', ex_plain)] ex_files)) = None \<and>
   printed (fst (snd (overwrite_loop (\<lambda>c. [c]) ''/sos'' ''na_sos.nc''
      [(''wbm_a'', ex_plain_bad), (''wbm_b'', ex_plain)] ex_files)))
     = [''FAILURE: WBM: '' @ [CHR 0x27] @ ''a'' @ [CHR 0x27] @ '' has NOT been overwritten in the SoS (constrained).'',
        ''WBM: '' @ [CHR 0x27] @ ''b'' @ [CHR 0x27] @ '' has been overwritten in the SoS (constrained).''] \<and>
   status_line (\<lambda>c. [c]) True ''gbnode'' ''river_type'' ''constrained'' =
     ''GBPRIORS: '' @ [CHR 0x27] @ ''river_type'' @ [CHR 0x27] @ '' has been overwritten in the SoS (constrained).'' \<and>
   status_line (\<lambda>c. [c]) False ''gbreach'' ''river_type'' ''constrained'' =
     ''FAILURE: GBPRIORS: '' @ [CHR 0x27] @ ''river_type'' @ [CHR 0x27] @ '' has NOT been overwritten in the SoS (constrained).'' \<and>
   upper (\<lambda>c. [c]) ''usgs'' = ''USGS''"
proof -
  let ?uc = "\<lambda>c :: char. [c]"
  let ?g1 = "[(''wbm_b'', ex_plain), (''usgs_usgs_q'', ex_timed3), (''wbm_a'', ex_plain_bad)]"
  let ?g2 = "[(''wbm_a'', ex_plain_bad), (''wbm_b'', ex_plain)]"
  have pk: "fst (parse_key ''wbm_a'') = ''wbm''" "snd (parse_key ''wbm_a'') = ''a''"
    "fst (parse_key ''wbm_b'') = ''wbm''" "snd (parse_key ''wbm_b'') = ''b''"
    by code_simp+
  have rt: "run_type ex_plain_bad = ''constrained''" "run_type ex_plain = ''constrained''"
    by code_simp+
  have v1: "loop_verdicts ''/sos'' ''na_sos.nc'' ?g1 ex_files = [True]"
    by code_simp
  have n1: "snd (snd (overwrite_loop ?uc ''/sos'' ''na_sos.nc'' ?g1 ex_files)) = Some IndexError"
    by code_simp
  have v2: "loop_verdicts ''/sos'' ''na_sos.nc'' ?g2 ex_files = [False, True]"
    by code_simp
  have n2: "snd (snd (overwrite_loop ?uc ''/sos'' ''na_sos.nc'' ?g2 ex_files)) = None"
    by code_simp
  have up: "upper ?uc ''wbm'' = ''WBM''" "upper ?uc ''usgs'' = ''USGS''"
    by code_simp+
  note i1 = status_line_format [of ?uc "''/sos''" "''na_sos.nc''" ?g1 ex_files _ _ _ _ _ _ "''wbm''" "''b''" "''constrained''"]
  note i2 = status_line_format [of ?uc "''/sos''" "''na_sos.nc''" ?g2 ex_files _ _ _ _ _ _ "''wbm''" "''a''" "''constrained''"]
  note i3 = status_line_format [of ?uc _ _ _ _ _ _ _ _ _ _ "''gbnode''" "''river_type''" "''constrained''"]
  note i4 = status_line_format [of ?uc _ _ _ _ _ _ _ _ _ _ "''gbreach''" "''river_type''" "''constrained''"]
  have sb: "status_line ?uc True ''wbm'' ''b'' ''constrained'' =
      ''WBM: '' @ [CHR 0x27] @ ''b'' @ [CHR 0x27] @ '' has been overwritten in the SoS (constrained).''"
    using i1 up by simp
  have sa: "status_line ?uc False ''wbm'' ''a'' ''constrained'' =
      ''FAILURE: WBM: '' @ [CHR 0x27] @ ''a'' @ [CHR 0x27] @ '' has NOT been overwritten in the SoS (constrained).''"
    using i2 up by simp
  have "printed (fst (snd (overwrite_loop ?uc ''/sos'' ''na_sos.nc'' ?g1 ex_files))) =
     map (\<lambda>((key, g), ok). status_line ?uc ok (fst (parse_key key)) (snd (parse_key key)) (run_type g))
       (zip ?g1 (loop_verdicts ''/sos'' ''na_sos.nc'' ?g1 ex_files))"
    using i1 by (rule conjunct1)
  then have p1: "printed (fst (snd (overwrite_loop ?uc ''/sos'' ''na_sos.nc'' ?g1 ex_files))) =
      [''WBM: '' @ [CHR 0x27] @ ''b'' @ [CHR 0x27] @ '' has been overwritten in the SoS (constrained).'']"
    unfolding v1 by (simp add: pk rt sb del: overwrite_loop.simps)
  have "printed (fst (snd (overwrite_loop ?uc ''/sos'' ''na_sos.nc'' ?g2 ex_files))) =
     map (\<lambda>((key, g), ok). status_line ?uc ok (fst (parse_key key)) (snd (parse_key key)) (run_type g))
       (zip ?g2 (loop_verdicts ''/sos'' ''na_sos.nc'' ?g2 ex_files))"
    using i2 by (rule conjunct1)
  then have p2: "printed (fst (snd (overwrite_loop ?uc ''/sos'' ''na_sos.nc'' ?g2 ex_files))) =
      [''FAILURE: WBM: '' @ [CHR 0x27] @ ''a'' @ [CHR 0x27] @ '' has NOT been overwritten in the SoS (constrained).'',
       ''WBM: '' @ [CHR 0x27] @ ''b'' @ [CHR 0x27] @ '' has been overwritten in the SoS (constrained).'']"
    unfolding v2 by (simp add: pk rt sa sb del: overwrite_loop.simps)
  have s3: "status_line ?uc True ''gbnode'' ''river_type'' ''constrained'' =
     ''GBPRIORS: '' @ [CHR 0x27] @ ''river_type'' @ [CHR 0x27] @ '' has been overwritten in the SoS (constrained).''"
    using i3 by simp
  have s4: "status_line ?uc False ''gbreach'' ''river_type'' ''constrained'' =
     ''FAILURE: GBPRIORS: '' @ [CHR 0x27] @ ''river_type'' @ [CHR 0x27] @ '' has NOT been overwritten in the SoS (constrained).''"
    using i4 by simp
  show ?thesis by (intro conjI v1 n1 p1 v2 n2 p2 s3 s4 up(2))
qed

subsection \<open>Records with a time vector\<close>

text \<open>
  C2. Two-axis write completeness does not hold of the code: the statement
  \<^verbatim>\<open>sos_ds[group][prior][prior_indexes,index_t] = data[0]\<close> writes the first payload
  row to every destination row. For the record \<open>ex_timed\<close>, payload
  \<open>[[1, 2], [3, 4]]\<close>, destination rows \<open>[0, 1]\<close> and time offsets \<open>[2, 0]\<close>, both
  destination rows hold \<open>[2, 0, 1]\<close> after the merge: cell \<open>(1, 2)\<close> holds \<open>1\<close>, not
  payload element \<open>(1, 0) = 3\<close>.
\<close>

theorem timed_write_first_row_only:
  "prior_values ex_timed = A2 [[1, 2], [3, 4]] \<and>
   indexes ex_timed = [0, 1] \<and>
   time_offsets ''model/usgs'' ''usgs_q'' [[2002, 2001], [2002, 2001]] ex_sos = Inr [2, 0] \<and>
   data_vars (fst (overwrite_group ''usgs'' ''usgs_q'' ex_timed ex_sos)) ''model/usgs/usgs_q''
     = Some (A2 [[2, 0, 1], [2, 0, 1]]) \<and>
   \<not> spec_cells_written [[1, 2], [3, 4]] [0, 1] [2, 0] [[2, 0, 1], [2, 0, 1]]"
  by code_simp

text \<open>
  C3. The verification of a record with a time vector compares the first payload row with
  the cells \<open>(test_indexes[k], index_t[k])\<close>, paired: for \<open>ex_timed\<close> the offsets
  recomputed from the identifiers are \<open>[0, 1]\<close> and the code reports success, although
  the cells read back at these rows and the time offsets are not close to the payload
  (row 1 of the payload is \<open>[3, 4]\<close>, the destination holds \<open>[1, 2]\<close> there). For
  \<open>ex_timed3\<close>, two reaches and three days, the paired read raises \<open>IndexError\<close> and no
  status is reported at all.
\<close>

theorem timed_verification_first_row_only:
  "test_ids ''usgs'' ex_timed ex_sos = Inr ([7, 8], [7, 8]) \<and>
   resolve_offsets [7, 8] [7, 8] = Inr [0, 1] \<and>
   snd (overwrite_group ''usgs'' ''usgs_q'' ex_timed ex_sos) = Inr True \<and>
   \<not> spec_readback_ok [[1, 2], [3, 4]] [0, 1] [2, 0] [[2, 0, 1], [2, 0, 1]] \<and>
   snd (overwrite_group ''usgs'' ''usgs_q'' ex_timed3 ex_sos) = Inl IndexError"
  by code_simp

subsection \<open>The shape categories of the builder\<close>












subsection \<open>Records without a time vector\<close>

lemma sequence_err_map_Inr:
  "(\<And>x. x \<in> set xs \<Longrightarrow> f x = Inr (g x)) \<Longrightarrow> sequence_err (map f xs) = Inr (map g xs)"
  by (induction xs) auto

lemma norm_indexes_in_range:
  assumes "\<And>i. i \<in> set idx \<Longrightarrow> 0 \<le> i \<and> i < int n"
  shows "norm_indexes n idx = Inr (map nat idx)"
  unfolding norm_indexes_def
proof (rule sequence_err_map_Inr)
  fix x assume "x \<in> set idx"
  then have "0 \<le> x \<and> x < int n" by (rule assms)
  then show "norm_index n x = Inr (nat x)" by (simp add: norm_index_def)
qed

lemma length_store_rows: "length (store_rows d ivs) = length d"
  by (induction ivs arbitrary: d) auto

lemma store_rows_nth_other:
  "i \<notin> fst ` set ivs \<Longrightarrow> store_rows d ivs ! i = d ! i"
proof (induction ivs arbitrary: d)
  case Nil
  then show ?case by simp
next
  case (Cons b ivs)
  obtain k u where b: "b = (k, u)" by (cases b)
  with Cons.prems have "k \<noteq> i" by auto
  with Cons b show ?case by simp
qed

lemma store_rows_nth:
  "distinct (map fst ivs) \<Longrightarrow> (i, v) \<in> set ivs \<Longrightarrow> i < length d \<Longrightarrow> store_rows d ivs ! i = v"
proof (induction ivs arbitrary: d)
  case Nil
  then show ?case by simp
next
  case (Cons a ivs)
  obtain j w where a: "a = (j, w)" by (cases a)
  show ?case
  proof (cases "(i, v) \<in> set ivs")
    case True
    with Cons a show ?thesis by simp
  next
    case False
    with Cons.prems a have eq: "j = i" "w = v" by auto
    have notin: "i \<notin> fst ` set ivs" using Cons.prems(1) a eq by simp
    from store_rows_nth_other [OF notin] Cons.prems(3) a eq show ?thesis by simp
  qed
qed

lemma allclose1_same_length:
  "length xs = length ys \<Longrightarrow>
     allclose1 xs ys = Inr (\<forall>i < length xs. isclose (xs ! i) (ys ! i))"
  by (auto simp: allclose1_def zip_bcast_def list_all_iff set_zip)

lemma isclose_refl: "isclose x x"
  by (simp add: isclose_def atol_def rtol_def)

text \<open>
  The write and the verification of a record without a time vector, for a one-axis
  payload and destination (property P2 of the specification). When the identifiers of the
  record all occur in the store and the destination offsets are in range, the merge
  raises no exception, and its verdict is true exactly when every payload element is close
  to the destination cell at the offset recomputed from its identifier. When the
  destination offsets are these recomputed offsets and are pairwise distinct, each cell
  holds its payload element after the write and the verdict is true.
\<close>

theorem plain_verification:
  assumes no_t: "value_t priors_ds = None"
    and ids: "test_ids source priors_ds sos_ds = Inr (prior_ids, sos_ids)"
    and present: "set prior_ids \<subseteq> set sos_ids"
    and var: "data_vars sos_ds (var_path (determine_group source) prior) = Some (A1 dest)"
    and payload: "prior_values priors_ds = A1 xs"
    and lens: "length xs = length (indexes priors_ds)" "length prior_ids = length xs"
      "length sos_ids = length dest"
    and range: "\<And>i. i \<in> set (indexes priors_ds) \<Longrightarrow> 0 \<le> i \<and> i < int (length dest)"
  shows "\<exists>offsets dest'.
     resolve_offsets sos_ids prior_ids = Inr offsets \<and>
     nc_setitem (A1 dest) (indexes priors_ds) (A1 xs) = Inr (A1 dest') \<and>
     overwrite_group source prior priors_ds sos_ds =
       (sos_ds\<lparr>data_vars := (data_vars sos_ds)(var_path (determine_group source) prior \<mapsto> A1 dest')\<rparr>,
        Inr (\<forall>i < length xs. isclose (xs ! i) (dest' ! (offsets ! i)))) \<and>
     (map nat (indexes priors_ds) = offsets \<and> distinct offsets \<longrightarrow>
        (\<forall>i < length xs. dest' ! (offsets ! i) = xs ! i) \<and>
        snd (overwrite_group source prior priors_ds sos_ds) = Inr True)"
proof -
  from resolve_offsets_found [OF present] obtain offsets where
    offs: "resolve_offsets sos_ids prior_ids = Inr offsets" "length offsets = length prior_ids"
      "\<And>i. i < length prior_ids \<Longrightarrow> offsets ! i < length sos_ids"
    by blast
  let ?js = "map nat (indexes priors_ds)"
  define dest' where "dest' = store_rows dest (zip ?js xs)"
  have norm: "norm_indexes (length dest) (indexes priors_ds) = Inr ?js"
    using range by (rule norm_indexes_in_range)
  have setitem: "nc_setitem (A1 dest) (indexes priors_ds) (A1 xs) = Inr (A1 dest')"
    using norm lens(1) by (simp add: bcast_list_def dest'_def)
  have len': "length dest' = length dest"
    by (simp add: dest'_def length_store_rows)
  have in_range: "\<And>k. k \<in> set (map int offsets) \<Longrightarrow> 0 \<le> k \<and> k < int (length dest')"
  proof -
    fix k assume "k \<in> set (map int offsets)"
    then obtain i where "i < length offsets" "k = int (offsets ! i)"
      by (auto simp: in_set_conv_nth)
    with offs(2) offs(3) [of i] lens(3) len' show "0 \<le> k \<and> k < int (length dest')" by simp
  qed
  have "norm_indexes (length dest') (map int offsets) = Inr (map nat (map int offsets))"
    using in_range by (rule norm_indexes_in_range)
  then have getitem: "nc_getitem (A1 dest') (map int offsets) = Inr (A1 (map (\<lambda>j. dest' ! j) offsets))"
    by (simp add: comp_def)
  have close: "allclose (A1 xs) (A1 (map (\<lambda>j. dest' ! j) offsets)) =
      Inr (\<forall>i < length xs. isclose (xs ! i) (dest' ! (offsets ! i)))"
    using offs(2) lens(2) by (simp add: allclose1_same_length)
  have run: "overwrite_group source prior priors_ds sos_ds =
       (sos_ds\<lparr>data_vars := (data_vars sos_ds)(var_path (determine_group source) prior \<mapsto> A1 dest')\<rparr>,
        Inr (\<forall>i < length xs. isclose (xs ! i) (dest' ! (offsets ! i))))"
    using no_t ids offs(1) var payload setitem getitem close
    by (simp add: overwrite_group_def overwrite_plain_def lookup_def Let_def)
  have trip: "map nat (indexes priors_ds) = offsets \<and> distinct offsets \<longrightarrow>
        (\<forall>i < length xs. dest' ! (offsets ! i) = xs ! i) \<and>
        snd (overwrite_group source prior priors_ds sos_ds) = Inr True"
  proof (intro impI)
    assume a: "map nat (indexes priors_ds) = offsets \<and> distinct offsets"
    have cells: "\<forall>i < length xs. dest' ! (offsets ! i) = xs ! i"
    proof (intro allI impI)
      fix i assume i: "i < length xs"
      have d: "distinct (map fst (zip offsets xs))"
        using a offs(2) lens(2) by simp
      have m: "(offsets ! i, xs ! i) \<in> set (zip offsets xs)"
        using i offs(2) lens(2) by (auto simp: set_zip)
      have r: "offsets ! i < length dest"
        using offs(3) [of i] i lens by simp
      from store_rows_nth [OF d m r] a show "dest' ! (offsets ! i) = xs ! i"
        by (simp add: dest'_def)
    qed
    then have "\<forall>i < length xs. isclose (xs ! i) (dest' ! (offsets ! i))"
      by (simp add: isclose_refl)
    with run cells show "(\<forall>i < length xs. dest' ! (offsets ! i) = xs ! i) \<and>
        snd (overwrite_group source prior priors_ds sos_ds) = Inr True"
      by simp
  qed
  from offs(1) setitem run trip show ?thesis by blast
qed

theorem plain_verification_witness:
  "value_t ex_plain = None \<and>
   test_ids ''wbm'' ex_plain ex_sos = Inr ([20, 30], [30, 10, 20]) \<and>
   resolve_offsets [30, 10, 20] [20, 30] = Inr [2, 0] \<and>
   map nat (indexes ex_plain) = [2, 0] \<and>
   data_vars (fst (overwrite_group ''wbm'' ''b'' ex_plain ex_sos)) ''model/b''
     = Some (A1 [77 / 10, 0, 11 / 2]) \<and>
   snd (overwrite_group ''wbm'' ''b'' ex_plain ex_sos) = Inr True"
proof -
  have h1: "value_t ex_plain = None" by code_simp
  have h2: "test_ids ''wbm'' ex_plain ex_sos = Inr ([20, 30], [30, 10, 20])" by code_simp
  have h3: "set [20, 30] \<subseteq> set [30, 10, 20 :: int]" by simp
  have h4: "data_vars ex_sos (var_path (determine_group ''wbm'') ''b'') = Some (A1 [0, 0, 0])"
    by code_simp
  have h5: "prior_values ex_plain = A1 [11 / 2, 77 / 10]" by code_simp
  have ix: "indexes ex_plain = [2, 0]" by code_simp
  have h6: "length [11 / 2, 77 / 10 :: rat] = length (indexes ex_plain)"
    "length [20, 30 :: int] = length [11 / 2, 77 / 10 :: rat]"
    "length [30, 10, 20 :: int] = length [0, 0, 0 :: rat]"
    by (simp_all add: ix)
  have h7: "\<And>i. i \<in> set (indexes ex_plain) \<Longrightarrow> 0 \<le> i \<and> i < int (length [0, 0, 0 :: rat])"
    by (auto simp: ix)
  have r: "resolve_offsets [30, 10, 20] [20, 30] = Inr [2, 0]" by code_simp
  have ex: "\<exists>offsets dest'.
     resolve_offsets [30, 10, 20] [20, 30] = Inr offsets \<and>
     nc_setitem (A1 [0, 0, 0]) (indexes ex_plain) (A1 [11 / 2, 77 / 10]) = Inr (A1 dest') \<and>
     overwrite_group ''wbm'' ''b'' ex_plain ex_sos =
       (ex_sos\<lparr>data_vars := (data_vars ex_sos)(var_path (determine_group ''wbm'') ''b'' \<mapsto> A1 dest')\<rparr>,
        Inr (\<forall>i < length [11 / 2, 77 / 10 :: rat]. isclose ([11 / 2, 77 / 10] ! i) (dest' ! (offsets ! i)))) \<and>
     (map nat (indexes ex_plain) = offsets \<and> distinct offsets \<longrightarrow>
        (\<forall>i < length [11 / 2, 77 / 10 :: rat]. dest' ! (offsets ! i) = [11 / 2, 77 / 10 :: rat] ! i) \<and>
        snd (overwrite_group ''wbm'' ''b'' ex_plain ex_sos) = Inr True)"
    using h1 h2 h3 h4 h5 h6 h7 by (rule plain_verification)
  then obtain offsets dest' where
    o: "resolve_offsets [30, 10, 20] [20, 30] = Inr offsets"
    and t: "map nat (indexes ex_plain) = offsets \<and> distinct offsets \<longrightarrow>
        (\<forall>i < length [11 / 2, 77 / 10 :: rat]. dest' ! (offsets ! i) = [11 / 2, 77 / 10 :: rat] ! i) \<and>
        snd (overwrite_group ''wbm'' ''b'' ex_plain ex_sos) = Inr True"
    by blast
  from o r have offs: "offsets = [2, 0]" by simp
  have pre: "map nat (indexes ex_plain) = offsets \<and> distinct offsets"
    by (simp add: ix offs)
  from t pre have ok: "snd (overwrite_group ''wbm'' ''b'' ex_plain ex_sos) = Inr True"
    by blast
  have cells: "data_vars (fst (overwrite_group ''wbm'' ''b'' ex_plain ex_sos)) ''model/b''
     = Some (A1 [77 / 10, 0, 11 / 2])"
    by code_simp
  have m: "map nat (indexes ex_plain) = [2, 0]" by (simp add: ix)
  show ?thesis by (intro conjI h1 h2 r m cells ok)
qed

text \<open>
  An identifier that is missing from the store is not detected: the bisection returns the
  position of the next larger identifier, and only a key above every store identifier
  raises.
\<close>

theorem resolve_offsets_missing_identifier:
  "resolve_offsets [30, 10, 20] [20, 25] = Inr [2, 0] \<and>
   resolve_offsets [30, 10, 20] [20, 35] = Inl IndexError"
  by code_simp

end
